theory Spec2Isabelle
  imports Main
begin

section \<open>Values read from the feeds\<close>

text \<open>
  The listings are what \<^verbatim>\<open>json.loads\<close> returns: a list of Python dicts whose values
  are arbitrary JSON values. Numbers are modelled as Python's unbounded ints (the feeds
  carry no fractional numbers in the fields the bot reads). A dict is an association list
  with distinct keys, read with \<open>map_of\<close>; text is a \<open>string\<close> of 8-bit characters, and
  the case mapping of \<^verbatim>\<open>str.lower\<close> is modelled on the ASCII letters only.
\<close>

datatype json =
    JNull
  | JBool bool
  | JInt int
  | JStr string
  | JList "json list"
  | JObj "(string \<times> json) list"

type_synonym role = "(string \<times> json) list"

datatype error = TypeError | AttributeError

text \<open>\<^verbatim>\<open>role.get(key, default)\<close>\<close>

definition get_default :: "role \<Rightarrow> string \<Rightarrow> json \<Rightarrow> json" where
  "get_default r k d = (case map_of r k of None \<Rightarrow> d | Some v \<Rightarrow> v)"

text \<open>\<^verbatim>\<open>role.get(key)\<close>: Python's \<^verbatim>\<open>None\<close> when the key is absent.\<close>

definition get_none :: "role \<Rightarrow> string \<Rightarrow> json" where
  "get_none r k = get_default r k JNull"

text \<open>\<^verbatim>\<open>bool(value)\<close> on a JSON value.\<close>

fun py_bool :: "json \<Rightarrow> bool" where
  "py_bool JNull = False"
| "py_bool (JBool b) = b"
| "py_bool (JInt n) = (n \<noteq> 0)"
| "py_bool (JStr s) = (s \<noteq> [])"
| "py_bool (JList xs) = (xs \<noteq> [])"
| "py_bool (JObj kvs) = (kvs \<noteq> [])"

definition lower_char :: "char \<Rightarrow> char" where
  "lower_char c =
     (case map_of (zip ''ABCDEFGHIJKLMNOPQRSTUVWXYZ'' ''abcdefghijklmnopqrstuvwxyz'') c of
        None \<Rightarrow> c
      | Some l \<Rightarrow> l)"

definition lower :: "string \<Rightarrow> string" where
  "lower s = map lower_char s"

text \<open>
  \<^verbatim>\<open>
  def _is_value_truthy(value):
      if isinstance(value, str):
          return value.lower() == 'true'
      return bool(value)
  \<close>
\<close>

fun is_value_truthy :: "json \<Rightarrow> bool" where
  "is_value_truthy (JStr s) = (lower s = ''true'')"
| "is_value_truthy v = py_bool v"

section \<open>The diff of two snapshots\<close>

text \<open>
  The keys of \<^verbatim>\<open>old_roles_dict\<close> are the identifiers as Python hashes and compares them:
  \<^verbatim>\<open>True\<close> and \<^verbatim>\<open>1\<close> are the same key, a list or a dict is unhashable and raises
  \<^verbatim>\<open>TypeError\<close>.
\<close>

datatype key = KNone | KInt int | KStr string

fun hash_key :: "json \<Rightarrow> key option" where
  "hash_key JNull = Some KNone"
| "hash_key (JBool b) = Some (KInt (if b then 1 else 0))"
| "hash_key (JInt n) = Some (KInt n)"
| "hash_key (JStr s) = Some (KStr s)"
| "hash_key (JList xs) = None"
| "hash_key (JObj kvs) = None"

text \<open>\<^verbatim>\<open>'id' in role and role['id'] is not None\<close>\<close>

definition has_id :: "role \<Rightarrow> bool" where
  "has_id r = (case map_of r ''id'' of None \<Rightarrow> False | Some v \<Rightarrow> v \<noteq> JNull)"

text \<open>
  \<^verbatim>\<open>old_roles_dict = {role['id']: role for role in old_data
                    if 'id' in role and role['id'] is not None}\<close>:
  a later record replaces an earlier one with the same identifier.
\<close>

fun build_index :: "role list \<Rightarrow> (key \<rightharpoonup> role) \<Rightarrow> error + (key \<rightharpoonup> role)" where
  "build_index [] d = Inr d"
| "build_index (r # rs) d =
     (if has_id r then
        (case hash_key (get_none r ''id'') of
           None \<Rightarrow> Inl TypeError
         | Some k \<Rightarrow> build_index rs (d(k \<mapsto> r)))
      else build_index rs d)"

record transitions =
  new_roles :: "role list"
  deactivated_roles :: "role list"
  reactivated_roles :: "role list"

definition no_transitions :: transitions where
  "no_transitions = \<lparr>new_roles = [], deactivated_roles = [], reactivated_roles = []\<rparr>"

text \<open>
  The loop \<^verbatim>\<open>for new_role in new_data\<close> of \<^verbatim>\<open>process_repo_updates\<close>; the three
  lists are appended to in input order. \<^verbatim>\<open>if old_role:\<close> is the truth value of the dict
  found, so a missing and an empty one both fall to the \<^verbatim>\<open>elif\<close>.
\<close>

fun classify :: "bool \<Rightarrow> (key \<rightharpoonup> role) \<Rightarrow> role list \<Rightarrow> transitions \<Rightarrow> error + transitions" where
  "classify is_second_repo d [] t = Inr t"
| "classify is_second_repo d (new_role # rest) t =
     (if \<not> has_id new_role then classify is_second_repo d rest t
      else
        (case hash_key (get_none new_role ''id'') of
           None \<Rightarrow> Inl TypeError
         | Some k \<Rightarrow>
             (let old_role = d k;
                  new_role_is_active = is_value_truthy (get_default new_role ''active'' (JBool True));
                  new_role_is_visible = is_value_truthy (get_default new_role ''is_visible'' (JBool True))
              in
                if old_role \<noteq> None \<and> old_role \<noteq> Some [] then
                  (let old_role_is_active =
                         is_value_truthy (get_default (the old_role) ''active'' (JBool True))
                   in
                     if old_role_is_active \<and> \<not> new_role_is_active then
                       classify is_second_repo d rest
                         (t\<lparr>deactivated_roles := deactivated_roles t @ [new_role]\<rparr>)
                     else if is_second_repo \<and> \<not> old_role_is_active \<and> new_role_is_active
                             \<and> new_role_is_visible then
                       classify is_second_repo d rest
                         (t\<lparr>reactivated_roles := reactivated_roles t @ [new_role]\<rparr>)
                     else classify is_second_repo d rest t)
                else if new_role_is_visible \<and> new_role_is_active then
                  classify is_second_repo d rest (t\<lparr>new_roles := new_roles t @ [new_role]\<rparr>)
                else classify is_second_repo d rest t)))"

text \<open>Lines 509 to 532 of \<^verbatim>\<open>process_repo_updates\<close>: the index, then the loop.\<close>

definition diff :: "role list \<Rightarrow> role list \<Rightarrow> bool \<Rightarrow> error + transitions" where
  "diff old_data new_data is_second_repo =
     (case build_index old_data Map.empty of
        Inl e \<Rightarrow> Inl e
      | Inr d \<Rightarrow> classify is_second_repo d new_data no_transitions)"

text \<open>
  Names for the conditions of the loop, used to state what the diff returns: the key of a
  record, its two flags with their default, the stored record the loop compares it with,
  and the three classifications.
\<close>

definition role_key :: "role \<Rightarrow> key option" where
  "role_key r = hash_key (get_none r ''id'')"

text \<open>Every identifier of the list is a JSON scalar, so that indexing it does not raise.\<close>

definition hashable_ids :: "role list \<Rightarrow> bool" where
  "hashable_ids rs = list_all (\<lambda>r. has_id r \<longrightarrow> role_key r \<noteq> None) rs"

definition role_is_active :: "role \<Rightarrow> bool" where
  "role_is_active r = is_value_truthy (get_default r ''active'' (JBool True))"

definition role_is_visible :: "role \<Rightarrow> bool" where
  "role_is_visible r = is_value_truthy (get_default r ''is_visible'' (JBool True))"

definition old_of :: "(key \<rightharpoonup> role) \<Rightarrow> role \<Rightarrow> role option" where
  "old_of d r = (case role_key r of None \<Rightarrow> None
                 | Some k \<Rightarrow> (case d k of None \<Rightarrow> None | Some old \<Rightarrow> if old = [] then None else Some old))"

definition is_deactivated :: "(key \<rightharpoonup> role) \<Rightarrow> role \<Rightarrow> bool" where
  "is_deactivated d r =
     (has_id r \<and> (case old_of d r of None \<Rightarrow> False
                   | Some old \<Rightarrow> role_is_active old \<and> \<not> role_is_active r))"

definition is_reactivated :: "bool \<Rightarrow> (key \<rightharpoonup> role) \<Rightarrow> role \<Rightarrow> bool" where
  "is_reactivated f d r =
     (has_id r \<and> (case old_of d r of None \<Rightarrow> False
                   | Some old \<Rightarrow> f \<and> \<not> role_is_active old \<and> role_is_active r \<and> role_is_visible r))"

definition is_new :: "(key \<rightharpoonup> role) \<Rightarrow> role \<Rightarrow> bool" where
  "is_new d r =
     (has_id r \<and> old_of d r = None \<and> role_is_visible r \<and> role_is_active r)"

section \<open>Text\<close>

text \<open>\<^verbatim>\<open>needle in haystack\<close> and \<^verbatim>\<open>s.startswith(prefix)\<close> on strings.\<close>

definition startswith :: "string \<Rightarrow> string \<Rightarrow> bool" where
  "startswith s p = (take (length p) s = p)"

fun is_substr :: "string \<Rightarrow> string \<Rightarrow> bool" where
  "is_substr p [] = (p = [])"
| "is_substr p (c # cs) = (startswith (c # cs) p \<or> is_substr p cs)"

text \<open>
  \<^verbatim>\<open>s.strip()\<close>: the white space of \<^verbatim>\<open>str.isspace\<close> among the ASCII characters.
\<close>

definition is_space :: "char \<Rightarrow> bool" where
  "is_space c = (c \<in> set [CHR 0x09, CHR 0x0A, CHR 0x0B, CHR 0x0C, CHR 0x0D,
                           CHR 0x1C, CHR 0x1D, CHR 0x1E, CHR 0x1F, CHR 0x20])"

definition strip :: "string \<Rightarrow> string" where
  "strip s = rev (dropWhile is_space (rev (dropWhile is_space s)))"

text \<open>\<^verbatim>\<open>sep.join(items)\<close> on strings.\<close>

fun join :: "string \<Rightarrow> string list \<Rightarrow> string" where
  "join sep [] = []"
| "join sep [s] = s"
| "join sep (s # t # rest) = s @ sep @ join sep (t # rest)"

text \<open>An item that is not a \<^verbatim>\<open>str\<close> makes \<^verbatim>\<open>join\<close> raise \<^verbatim>\<open>TypeError\<close>.\<close>

fun str_items :: "json list \<Rightarrow> error + string list" where
  "str_items [] = Inr []"
| "str_items (JStr s # rest) =
     (case str_items rest of Inl e \<Rightarrow> Inl e | Inr ss \<Rightarrow> Inr (s # ss))"
| "str_items (v # rest) = Inl TypeError"

text \<open>
  \<^verbatim>\<open>sep.join(value)\<close> on a JSON value: a list gives its items, a string its characters,
  a dict its keys; \<^verbatim>\<open>None\<close>, a bool and an int are not iterable.
\<close>

fun py_join :: "string \<Rightarrow> json \<Rightarrow> error + string" where
  "py_join sep (JList xs) =
     (case str_items xs of Inl e \<Rightarrow> Inl e | Inr ss \<Rightarrow> Inr (join sep ss))"
| "py_join sep (JStr s) = Inr (join sep (map (\<lambda>c. [c]) s))"
| "py_join sep (JObj kvs) = Inr (join sep (map fst kvs))"
| "py_join sep v = Inl TypeError"

text \<open>\<^verbatim>\<open>str(n)\<close> of an int.\<close>

function str_of_nat :: "nat \<Rightarrow> string" where
  "str_of_nat n =
     (if n < 10 then [''0123456789'' ! n]
      else str_of_nat (n div 10) @ [''0123456789'' ! (n mod 10)])"
  by pat_completeness auto
termination
  by (relation "measure id") auto

declare str_of_nat.simps [simp del]

definition str_of_int :: "int \<Rightarrow> string" where
  "str_of_int i = (if i < 0 then ''-'' @ str_of_nat (nat (- i)) else str_of_nat (nat i))"

text \<open>
  What the process reads from outside while it formats a message: the date stamp
  \<^verbatim>\<open>datetime.now().strftime('%b %d')\<close>, and Python's rendering of a list or a dict
  inside an f-string.
\<close>

record py_env =
  date_stamp :: string
  container_str :: "json \<Rightarrow> string"

text \<open>A value inside an f-string, \<^verbatim>\<open>f"{value}"\<close>.\<close>

fun py_format :: "py_env \<Rightarrow> json \<Rightarrow> string" where
  "py_format env (JStr s) = s"
| "py_format env (JInt n) = str_of_int n"
| "py_format env (JBool b) = (if b then ''True'' else ''False'')"
| "py_format env JNull = ''None''"
| "py_format env v = container_str env v"

section \<open>Message formatting\<close>

text \<open>The emoji constants, as their UTF-8 bytes.\<close>

definition EMOJI_NEW :: string where
  "EMOJI_NEW = [CHR 0xE2, CHR 0x9C, CHR 0xA8]"

definition EMOJI_DEACTIVATED :: string where
  "EMOJI_DEACTIVATED = [CHR 0xF0, CHR 0x9F, CHR 0x93, CHR 0x89]"

definition EMOJI_REACTIVATED :: string where
  "EMOJI_REACTIVATED = [CHR 0xF0, CHR 0x9F, CHR 0x93, CHR 0x88]"

definition EMOJI_SUMMER :: string where
  "EMOJI_SUMMER = [CHR 0xE2, CHR 0x98, CHR 0x80, CHR 0xEF, CHR 0xB8, CHR 0x8F]"

definition EMOJI_WINTER :: string where
  "EMOJI_WINTER = [CHR 0xE2, CHR 0x9D, CHR 0x84, CHR 0xEF, CHR 0xB8, CHR 0x8F]"

definition EMOJI_FALL :: string where
  "EMOJI_FALL = [CHR 0xF0, CHR 0x9F, CHR 0x8D, CHR 0x82]"

definition EMOJI_UNKNOWN_TERM :: string where
  "EMOJI_UNKNOWN_TERM = [CHR 0xE2, CHR 0x9D, CHR 0x93]"

definition BIG_TECH_COMPANIES :: "string list" where
  "BIG_TECH_COMPANIES =
   [''openai'', ''anthropic'', ''google'', ''nvidia'', ''bloomberg'', ''snap'', ''meta'',
    ''apple'', ''amazon'', ''microsoft'', ''netflix'', ''tesla'', ''databricks'', ''figma'',
    ''roblox'', ''square'', ''block'', ''stripe'', ''airbnb'', ''uber'', ''lyft'',
    ''doordash'', ''instacart'', ''palantir'', ''snowflake'', ''salesforce'', ''oracle'',
    ''sap'', ''adobe'', ''intel'', ''amd'', ''qualcomm'', ''texas instruments'', ''cisco'',
    ''dell'', ''hp'', ''atlassian'', ''zoom'', ''workday'', ''servicenow'', ''twilio'',
    ''shopify'', ''spotify'', ''pinterest'', ''twitter'', ''linkedin'', ''github'',
    ''robinhood'', ''coinbase'', ''jane street'', ''hudson river trading'', ''citadel'',
    ''two sigma'', ''jump trading'', ''drw'', ''akamai'', ''cloudflare'', ''mongodb'',
    ''splunk'', ''reddit'', ''discord'', ''tiktok'', ''bytedance'', ''waymo'', ''heygen'',
    ''waabi'', ''mistral'', ''perplexity'', ''point72'', ''optiver'', ''imc trading'',
    ''tencent'', ''samsung'', ''tower research'', ''rippling'', ''cohere'', ''talos trading'',
    ''kalshi'', ''neo'', ''capital one'', ''datadog'', ''ramp'', ''notion'', ''five rings'',
    ''epic games'', ''riot games'', ''sony'', ''x'']"

text \<open>
  \<^verbatim>\<open>get_term_emoji_and_string\<close>: the \<^verbatim>\<open>season\<close> field is preferred to
  \<^verbatim>\<open>terms\<close>; the emojis are collected in the order summer, winter, fall.
\<close>

definition get_term_emoji_and_string :: "role \<Rightarrow> error + (string \<times> string)" where
  "get_term_emoji_and_string role_data =
     (let raw_terms = get_none role_data ''terms'';
          raw_season = get_none role_data ''season'';
          resolved =
            (if py_bool raw_season then
               (case raw_season of
                  JList xs \<Rightarrow> if xs \<noteq> [] then py_join '', '' raw_season else Inr ''Unknown''
                | JStr s \<Rightarrow> if strip s \<noteq> [] then Inr s else Inr ''Unknown''
                | _ \<Rightarrow> Inr ''Unknown'')
             else if py_bool raw_terms then
               (case raw_terms of
                  JList xs \<Rightarrow> if xs \<noteq> [] then py_join '', '' raw_terms else Inr ''Unknown''
                | JStr s \<Rightarrow> if strip s \<noteq> [] then Inr s else Inr ''Unknown''
                | _ \<Rightarrow> Inr ''Unknown'')
             else Inr ''Unknown'')
      in case resolved of
           Inl e \<Rightarrow> Inl e
         | Inr season_str \<Rightarrow>
             if season_str = [] \<or> season_str = ''Unknown'' then
               Inr (EMOJI_UNKNOWN_TERM, ''Unknown'')
             else
               (let season_lower = lower season_str;
                    collected_emojis =
                      (if is_substr ''summer'' season_lower \<or> is_substr ''spring'' season_lower
                       then [EMOJI_SUMMER] else [])
                      @ (if is_substr ''winter'' season_lower then [EMOJI_WINTER] else [])
                      @ (if is_substr ''fall'' season_lower \<or> is_substr ''autumn'' season_lower
                         then [EMOJI_FALL] else [])
                in Inr (if collected_emojis = [] then EMOJI_UNKNOWN_TERM
                        else concat collected_emojis,
                        season_str)))"

text \<open>The mention token \<^verbatim>\<open>f"<@&{ping_role_id}> "\<close>.\<close>

definition role_mention :: "int \<Rightarrow> string" where
  "role_mention ping_role_id = ''<@&'' @ str_of_int ping_role_id @ ''> ''"

text \<open>
  The loop \<^verbatim>\<open>for company in BIG_TECH_COMPANIES\<close> of \<^verbatim>\<open>format_message\<close> and of
  \<^verbatim>\<open>format_reactivation_message\<close>, which leaves at the first match. The company name is
  whatever the record holds: \<^verbatim>\<open>.lower()\<close> on anything but a \<^verbatim>\<open>str\<close> raises
  \<^verbatim>\<open>AttributeError\<close>. The result is the value of \<^verbatim>\<open>should_ping\<close> after the loop,
  \<open>should_ping\<close> being its value before.
\<close>

fun ping_loop :: "string list \<Rightarrow> json \<Rightarrow> bool \<Rightarrow> error + bool" where
  "ping_loop [] company_name_str should_ping = Inr should_ping"
| "ping_loop (company # rest) company_name_str should_ping =
     (if lower company = ''x'' then
        (case company_name_str of
           JStr s \<Rightarrow>
             if startswith (lower s) ''x'' then Inr True
             else ping_loop rest company_name_str should_ping
         | _ \<Rightarrow> Inl AttributeError)
      else
        (case company_name_str of
           JStr s \<Rightarrow>
             if is_substr (lower company) (lower s) then Inr True
             else ping_loop rest company_name_str should_ping
         | _ \<Rightarrow> Inl AttributeError))"

definition nl :: string where
  "nl = [CHR 0x0A]"

text \<open>The three texts \<^verbatim>\<open>format_message\<close> returns.\<close>

definition unknown_term_url_text :: "py_env \<Rightarrow> json \<Rightarrow> json \<Rightarrow> json \<Rightarrow> string \<Rightarrow> string \<Rightarrow> string" where
  "unknown_term_url_text env company_name_str title_str url_str term_emoji term_str =
     EMOJI_NEW @ '' **'' @ py_format env company_name_str @ ''** - '' @ py_format env title_str @ nl
     @ ''Term: '' @ term_emoji @ '' '' @ term_str @ ''. Review details: <''
     @ py_format env url_str @ ''>''"

definition unknown_term_text :: "py_env \<Rightarrow> json \<Rightarrow> json \<Rightarrow> string \<Rightarrow> string \<Rightarrow> string" where
  "unknown_term_text env company_name_str title_str term_emoji term_str =
     EMOJI_NEW @ '' **'' @ py_format env company_name_str @ ''** - '' @ py_format env title_str @ nl
     @ ''Term: '' @ term_emoji @ '' '' @ term_str @ ''. More details unavailable.''"

definition new_role_text ::
  "py_env \<Rightarrow> json \<Rightarrow> string \<Rightarrow> json \<Rightarrow> json \<Rightarrow> string \<Rightarrow> string \<Rightarrow> string \<Rightarrow> json \<Rightarrow> string" where
  "new_role_text env company_name_str ping_str title_str url_str location_str term_emoji term_str
       sponsorship_str =
     EMOJI_NEW @ '' **'' @ py_format env company_name_str @ ''** just posted a new internship! ''
     @ ping_str @ nl
     @ ''['' @ py_format env title_str @ '']('' @ py_format env url_str @ '')'' @ nl
     @ ''**Location(s):** '' @ location_str @ nl
     @ ''**Term:** '' @ term_emoji @ '' '' @ term_str @ nl
     @ ''**Sponsorship:** `'' @ py_format env sponsorship_str @ ''`'' @ nl
     @ ''**Posted:** '' @ date_stamp env"

text \<open>
  \<^verbatim>\<open>', '.join(role.get('locations', [])) if role.get('locations') else 'Not specified'\<close>
\<close>

definition location_text :: "role \<Rightarrow> error + string" where
  "location_text role =
     (if py_bool (get_none role ''locations'')
      then py_join '', '' (get_default role ''locations'' (JList []))
      else Inr ''Not specified'')"

text \<open>
  \<^verbatim>\<open>format_message(role, guild_id, guild_ping_roles)\<close>. With an unknown term the function
  returns one of the two short texts before the mention is looked at.
\<close>

definition format_message :: "py_env \<Rightarrow> role \<Rightarrow> int \<Rightarrow> (int \<rightharpoonup> int) \<Rightarrow> error + string" where
  "format_message env role guild_id guild_ping_roles =
     (let company_name_str = get_default role ''company_name'' (JStr ''N/A Company'');
          title_str = get_default role ''title'' (JStr ''N/A Title'');
          url_str = get_default role ''url'' (JStr ''#'')
      in
        case location_text role of
          Inl e \<Rightarrow> Inl e
        | Inr location_str \<Rightarrow>
            (let sponsorship_str = get_default role ''sponsorship'' (JStr ''Not specified'')
             in
               case get_term_emoji_and_string role of
                 Inl e \<Rightarrow> Inl e
               | Inr (term_emoji, term_str) \<Rightarrow>
                   if term_str = ''Unknown'' \<and> url_str \<noteq> JStr ''#'' then
                     Inr (unknown_term_url_text env company_name_str title_str url_str
                            term_emoji term_str)
                   else if term_str = ''Unknown'' then
                     Inr (unknown_term_text env company_name_str title_str term_emoji term_str)
                   else
                     (case
                        (case guild_ping_roles guild_id of
                           None \<Rightarrow> Inr []
                         | Some ping_role_id \<Rightarrow>
                             if ping_role_id \<noteq> 0 then
                               (case ping_loop BIG_TECH_COMPANIES company_name_str False of
                                  Inl e \<Rightarrow> Inl e
                                | Inr should_ping \<Rightarrow>
                                    Inr (if should_ping then role_mention ping_role_id else []))
                             else Inr [])
                      of
                        Inl e \<Rightarrow> Inl e
                      | Inr ping_str \<Rightarrow>
                          Inr (new_role_text env company_name_str ping_str title_str url_str
                                 location_str term_emoji term_str sponsorship_str))))"

definition deactivation_text :: "py_env \<Rightarrow> json \<Rightarrow> json \<Rightarrow> json \<Rightarrow> string \<Rightarrow> string \<Rightarrow> string" where
  "deactivation_text env company_name_str title_str url_str term_emoji term_str =
     EMOJI_DEACTIVATED @ '' **'' @ py_format env company_name_str
     @ ''** internship is no longer active.'' @ nl
     @ ''['' @ py_format env title_str @ '']('' @ py_format env url_str @ '') - Term: ''
     @ term_emoji @ '' '' @ term_str @ nl
     @ ''Deactivated: '' @ date_stamp env"

text \<open>\<^verbatim>\<open>format_deactivation_message(role)\<close>: neither a guild nor the ping roles are passed.\<close>

definition format_deactivation_message :: "py_env \<Rightarrow> role \<Rightarrow> error + string" where
  "format_deactivation_message env role =
     (let company_name_str = get_default role ''company_name'' (JStr ''N/A Company'');
          title_str = get_default role ''title'' (JStr ''N/A Title'');
          url_str = get_default role ''url'' (JStr ''#'')
      in
        case get_term_emoji_and_string role of
          Inl e \<Rightarrow> Inl e
        | Inr (term_emoji, term_str) \<Rightarrow>
            Inr (deactivation_text env company_name_str title_str url_str term_emoji term_str))"

definition reactivation_text ::
  "py_env \<Rightarrow> string \<Rightarrow> json \<Rightarrow> json \<Rightarrow> json \<Rightarrow> string \<Rightarrow> string \<Rightarrow> string" where
  "reactivation_text env ping_str company_name_str title_str url_str term_emoji term_str =
     EMOJI_REACTIVATED @ '' '' @ ping_str @ ''**'' @ py_format env company_name_str
     @ ''** internship is active again!'' @ nl
     @ ''['' @ py_format env title_str @ '']('' @ py_format env url_str @ '') - Term: ''
     @ term_emoji @ '' '' @ term_str @ nl
     @ ''Reactivated: '' @ date_stamp env"

text \<open>
  \<^verbatim>\<open>format_reactivation_message(role, guild_id, guild_ping_roles)\<close>: \<^verbatim>\<open>should_ping\<close>
  is first set when the term holds "winter 2026", then the loop over the companies runs.
\<close>

definition format_reactivation_message ::
  "py_env \<Rightarrow> role \<Rightarrow> int \<Rightarrow> (int \<rightharpoonup> int) \<Rightarrow> error + string" where
  "format_reactivation_message env role guild_id guild_ping_roles =
     (let company_name_str = get_default role ''company_name'' (JStr ''N/A Company'');
          title_str = get_default role ''title'' (JStr ''N/A Title'');
          url_str = get_default role ''url'' (JStr ''#'')
      in
        case get_term_emoji_and_string role of
          Inl e \<Rightarrow> Inl e
        | Inr (term_emoji, term_str) \<Rightarrow>
            (case
               (case guild_ping_roles guild_id of
                  None \<Rightarrow> Inr []
                | Some ping_role_id \<Rightarrow>
                    if ping_role_id \<noteq> 0 then
                      (case ping_loop BIG_TECH_COMPANIES company_name_str
                              (is_substr ''winter 2026'' (lower term_str)) of
                         Inl e \<Rightarrow> Inl e
                       | Inr should_ping \<Rightarrow>
                           Inr (if should_ping then role_mention ping_role_id else []))
                    else Inr [])
             of
               Inl e \<Rightarrow> Inl e
             | Inr ping_str \<Rightarrow>
                 Inr (reactivation_text env ping_str company_name_str title_str url_str
                        term_emoji term_str)))"


section \<open>The state of the bot\<close>

text \<open>
  The module's globals \<^verbatim>\<open>failed_channels\<close>, \<^verbatim>\<open>channel_failure_counts\<close> and
  \<^verbatim>\<open>is_task_running\<close>, the snapshot files, the rows of the table \<^verbatim>\<open>guild_configs\<close>
  (guild, channel, ping role), and a trace of what the running coroutine did, in program
  order: where it was suspended at an \<^verbatim>\<open>await\<close>, which tasks it handed to the event
  loop, which file it opened for writing, to which destination key it tried to send. A
  file that a failed write left behind holds no JSON document.
\<close>

datatype file_content = Json_doc "role list" | Not_json

datatype task =
    Send_discord_message string int int
  | Send_messages_to_all string
  | Combined_scheduled_task

datatype event =
    Suspended
  | Task_created task
  | File_overwritten string
  | Send_attempted string

record world =
  failed_channels :: "string set"
  channel_failure_counts :: "string \<rightharpoonup> nat"
  is_task_running :: bool
  files :: "string \<rightharpoonup> file_content"
  guild_configs :: "(int \<times> int option \<times> int option) list"
  trace :: "event list"

definition MAX_RETRIES :: nat where
  "MAX_RETRIES = 3"

definition PREVIOUS_DATA_FILE :: string where
  "PREVIOUS_DATA_FILE = ''previous_data.json''"

definition PREVIOUS_DATA_FILE_2 :: string where
  "PREVIOUS_DATA_FILE_2 = ''previous_data_simplify.json''"

text \<open>\<^verbatim>\<open>f"{guild_id}:{channel_id}"\<close>\<close>

definition channel_key_of :: "int \<Rightarrow> int \<Rightarrow> string" where
  "channel_key_of guild_id channel_id = str_of_int guild_id @ '':'' @ str_of_int channel_id"

text \<open>\<^verbatim>\<open>get_all_channels_from_db\<close>: the rows whose channel is not null.\<close>

definition get_all_channels_from_db :: "world \<Rightarrow> (int \<times> int) list" where
  "get_all_channels_from_db w =
     List.map_filter (\<lambda>(guild_id, channel_id, ping_role_id).
        case channel_id of None \<Rightarrow> None | Some c \<Rightarrow> Some (guild_id, c)) (guild_configs w)"

text \<open>\<^verbatim>\<open>get_all_guild_ping_roles\<close>: the dict from a guild to its ping role.\<close>

definition get_all_guild_ping_roles :: "world \<Rightarrow> (int \<rightharpoonup> int)" where
  "get_all_guild_ping_roles w =
     fold (\<lambda>(guild_id, channel_id, ping_role_id) guild_roles.
        case ping_role_id of None \<Rightarrow> guild_roles | Some r \<Rightarrow> guild_roles(guild_id \<mapsto> r))
       (guild_configs w) Map.empty"

text \<open>
  An \<^verbatim>\<open>await\<close> on the network or on the database suspends the coroutine, and the event
  loop runs the other tasks meanwhile: the sends created earlier, which change the two
  tracker globals, and the commands, which change the configuration rows. What they do is
  the parameter \<open>others\<close>; the trace records the suspension.
\<close>

definition suspend :: "(world \<Rightarrow> world) \<Rightarrow> world \<Rightarrow> world" where
  "suspend others w =
     w\<lparr>failed_channels := failed_channels (others w),
       channel_failure_counts := channel_failure_counts (others w),
       guild_configs := guild_configs (others w),
       trace := trace w @ [Suspended]\<rparr>"

section \<open>The failure tracker of \<^verbatim>\<open>send_discord_message\<close>\<close>

text \<open>
  What an attempt to send ends with: the message was sent; the channel fetched is not a
  text channel; \<^verbatim>\<open>discord.NotFound\<close>; \<^verbatim>\<open>discord.Forbidden\<close>; any other exception.
\<close>

datatype send_result = Sent | Not_text_channel | Not_found | Forbidden | Other_exception

text \<open>\<^verbatim>\<open>channel_failure_counts.get(channel_key, 0)\<close>\<close>

definition failure_count :: "world \<Rightarrow> string \<Rightarrow> nat" where
  "failure_count w channel_key = (case channel_failure_counts w channel_key of None \<Rightarrow> 0 | Some n \<Rightarrow> n)"

text \<open>
  Lines 393 to 427 of \<^verbatim>\<open>send_discord_message\<close>: the \<^verbatim>\<open>try\<close> body and its handlers
  for the result of the attempt, then the \<^verbatim>\<open>finally\<close> clause.
\<close>

definition record_outcome :: "string \<Rightarrow> send_result \<Rightarrow> world \<Rightarrow> world" where
  "record_outcome channel_key result w =
     (let w1 =
        (case result of
           Not_text_channel \<Rightarrow>
             w\<lparr>channel_failure_counts :=
                 (channel_failure_counts w)(channel_key \<mapsto> failure_count w channel_key + MAX_RETRIES),
               failed_channels := insert channel_key (failed_channels w)\<rparr>
         | Sent \<Rightarrow>
             w\<lparr>channel_failure_counts := (channel_failure_counts w)(channel_key := None),
               failed_channels := failed_channels w - {channel_key}\<rparr>
         | Not_found \<Rightarrow>
             w\<lparr>channel_failure_counts :=
                 (channel_failure_counts w)(channel_key \<mapsto> failure_count w channel_key + 1)\<rparr>
         | Forbidden \<Rightarrow>
             w\<lparr>failed_channels := insert channel_key (failed_channels w)\<rparr>
         | Other_exception \<Rightarrow>
             w\<lparr>channel_failure_counts :=
                 (channel_failure_counts w)(channel_key \<mapsto> failure_count w channel_key + 1)\<rparr>)
      in if failure_count w1 channel_key \<ge> MAX_RETRIES
         then w1\<lparr>failed_channels := insert channel_key (failed_channels w1)\<rparr>
         else w1)"

text \<open>\<^verbatim>\<open>channel_key in failed_channels\<close>, the test that skips a destination.\<close>

definition should_skip :: "world \<Rightarrow> string \<Rightarrow> bool" where
  "should_skip w channel_key = (channel_key \<in> failed_channels w)"

text \<open>
  \<^verbatim>\<open>send_discord_message(message_content, guild_id, channel_id)\<close>, the result of the
  attempt being given: a skipped destination is not attempted at all.
\<close>

definition send_discord_message :: "send_result \<Rightarrow> string \<Rightarrow> int \<Rightarrow> int \<Rightarrow> world \<Rightarrow> world" where
  "send_discord_message result message_content guild_id channel_id w =
     (if should_skip w (channel_key_of guild_id channel_id) then w
      else record_outcome (channel_key_of guild_id channel_id) result
             (w\<lparr>trace := trace w @ [Send_attempted (channel_key_of guild_id channel_id)]\<rparr>))"

text \<open>
  \<^verbatim>\<open>send_messages_to_all_configured_channels(message_content, guild_ping_roles)\<close>, called
  with the ping roles given: the channels are read, those skipped are filtered out, and
  \<^verbatim>\<open>asyncio.gather\<close> waits for one send to each of the others. The sends run
  concurrently; the model runs them one after the other, in the order of the list, the
  result of each attempt being given by \<open>result_of\<close>.
\<close>

definition send_messages_to_all_configured_channels ::
  "(world \<Rightarrow> world) \<Rightarrow> (int \<Rightarrow> int \<Rightarrow> send_result) \<Rightarrow> string \<Rightarrow> world \<Rightarrow> world" where
  "send_messages_to_all_configured_channels others result_of message_content w =
     (let w1 = suspend others w;
          channel_configs = get_all_channels_from_db w1
      in if channel_configs = [] then w1
         else
           (let active_channel_configs =
                  filter (\<lambda>(guild_id, channel_id).
                            channel_key_of guild_id channel_id \<notin> failed_channels w1)
                    channel_configs
            in fold (\<lambda>(guild_id, channel_id).
                       send_discord_message (result_of guild_id channel_id) message_content
                         guild_id channel_id)
                 active_channel_configs w1))"

text \<open>A sequence of recorded results, each with its destination key.\<close>

fun record_all :: "(string \<times> send_result) list \<Rightarrow> world \<Rightarrow> world" where
  "record_all [] w = w"
| "record_all ((k, result) # rest) w = record_all rest (record_outcome k result w)"

text \<open>The classes of results the specification names.\<close>

fun retryable_failure :: "send_result \<Rightarrow> bool" where
  "retryable_failure Not_found = True"
| "retryable_failure Other_exception = True"
| "retryable_failure r = False"

fun permanent_failure :: "send_result \<Rightarrow> bool" where
  "permanent_failure Forbidden = True"
| "permanent_failure Not_text_channel = True"
| "permanent_failure r = False"

section \<open>One feed: \<^verbatim>\<open>process_repo_updates\<close>\<close>

text \<open>
  The loops at lines 536 to 541 and 548 to 553: for every configured channel that is not
  skipped, the message is formatted for the channel's guild and the send is handed to the
  event loop with \<^verbatim>\<open>loop.create_task\<close>, which returns at once; nothing awaits the
  task. An exception raised by the formatting leaves the function.
\<close>

fun create_send_tasks ::
  "(int \<Rightarrow> error + string) \<Rightarrow> (int \<times> int) list \<Rightarrow> world \<Rightarrow> error option \<times> world" where
  "create_send_tasks format_for [] w = (None, w)"
| "create_send_tasks format_for ((guild_id, channel_id) # rest) w =
     (if channel_key_of guild_id channel_id \<notin> failed_channels w then
        (case format_for guild_id of
           Inl e \<Rightarrow> (Some e, w)
         | Inr message \<Rightarrow>
             create_send_tasks format_for rest
               (w\<lparr>trace := trace w @ [Task_created (Send_discord_message message guild_id channel_id)]\<rparr>))
      else create_send_tasks format_for rest w)"

text \<open>
  \<^verbatim>\<open>for role in roles: channel_configs = await get_all_channels_from_db(); ...\<close>,
  with \<open>format_role\<close> one of \<^verbatim>\<open>format_message\<close> and \<^verbatim>\<open>format_reactivation_message\<close>.
\<close>

fun notify_per_channel ::
  "(world \<Rightarrow> world) \<Rightarrow> (role \<Rightarrow> int \<Rightarrow> error + string) \<Rightarrow> role list \<Rightarrow> world
     \<Rightarrow> error option \<times> world" where
  "notify_per_channel others format_role [] w = (None, w)"
| "notify_per_channel others format_role (role # roles) w =
     (let w1 = suspend others w;
          channel_configs = get_all_channels_from_db w1
      in case create_send_tasks (format_role role) channel_configs w1 of
           (Some e, w2) \<Rightarrow> (Some e, w2)
         | (None, w2) \<Rightarrow> notify_per_channel others format_role roles w2)"

text \<open>
  Lines 543 to 545: one message for each deactivated role, and one task that will send it
  to all configured channels.
\<close>

fun notify_deactivated :: "py_env \<Rightarrow> role list \<Rightarrow> world \<Rightarrow> error option \<times> world" where
  "notify_deactivated env [] w = (None, w)"
| "notify_deactivated env (role # roles) w =
     (case format_deactivation_message env role of
        Inl e \<Rightarrow> (Some e, w)
      | Inr message \<Rightarrow>
          notify_deactivated env roles
            (w\<lparr>trace := trace w @ [Task_created (Send_messages_to_all message)]\<rparr>))"

text \<open>
  Lines 555 to 560: the file is opened for writing, which empties it, and the new data is
  dumped into it; an \<^verbatim>\<open>IOError\<close> is logged and the function goes on. The write may fail
  when the file is opened or while the data is written.
\<close>

datatype io_fault = No_fault | Open_fails | Write_fails

definition write_previous_data :: "io_fault \<Rightarrow> string \<Rightarrow> role list \<Rightarrow> world \<Rightarrow> world" where
  "write_previous_data fault previous_data_file new_data w =
     (case fault of
        Open_fails \<Rightarrow> w
      | Write_fails \<Rightarrow>
          w\<lparr>files := (files w)(previous_data_file \<mapsto> Not_json),
            trace := trace w @ [File_overwritten previous_data_file]\<rparr>
      | No_fault \<Rightarrow>
          w\<lparr>files := (files w)(previous_data_file \<mapsto> Json_doc new_data),
            trace := trace w @ [File_overwritten previous_data_file]\<rparr>)"

text \<open>
  \<^verbatim>\<open>process_repo_updates(new_data, old_data, previous_data_file, repo_url, is_second_repo)\<close>;
  the URL is only logged. The result tells which exception left the function, if any.
\<close>

definition process_repo_updates ::
  "py_env \<Rightarrow> (world \<Rightarrow> world) \<Rightarrow> io_fault \<Rightarrow> role list \<Rightarrow> role list \<Rightarrow> string \<Rightarrow> bool \<Rightarrow> world
     \<Rightarrow> error option \<times> world" where
  "process_repo_updates env others fault new_data old_data previous_data_file is_second_repo w =
     (case build_index old_data Map.empty of
        Inl e \<Rightarrow> (Some e, w)
      | Inr old_roles_dict \<Rightarrow>
          (let w1 = suspend others w;
               guild_ping_roles = get_all_guild_ping_roles w1
           in case classify is_second_repo old_roles_dict new_data no_transitions of
                Inl e \<Rightarrow> (Some e, w1)
              | Inr t \<Rightarrow>
                  (case notify_per_channel others
                          (\<lambda>role guild_id. format_message env role guild_id guild_ping_roles)
                          (new_roles t) w1 of
                     (Some e, w2) \<Rightarrow> (Some e, w2)
                   | (None, w2) \<Rightarrow>
                       (case notify_deactivated env (deactivated_roles t) w2 of
                          (Some e, w3) \<Rightarrow> (Some e, w3)
                        | (None, w3) \<Rightarrow>
                            (case (if is_second_repo then
                                     notify_per_channel others
                                       (\<lambda>role guild_id.
                                          format_reactivation_message env role guild_id
                                            guild_ping_roles)
                                       (reactivated_roles t) w3
                                   else (None, w3)) of
                               (Some e, w4) \<Rightarrow> (Some e, w4)
                             | (None, w4) \<Rightarrow>
                                 (None,
                                  write_previous_data fault previous_data_file new_data w4))))))"

section \<open>The cycle: \<^verbatim>\<open>combined_scheduled_task\<close>\<close>

text \<open>
  What the request of \<^verbatim>\<open>fetch_json_from_url\<close> ends with. Every failure is caught and
  gives the empty list; only a cancellation, which is no \<^verbatim>\<open>Exception\<close>, gets through.
\<close>

datatype http_result =
    Response_200 "role list"
  | Bad_status
  | Bad_json
  | Connection_error
  | Cancelled

datatype raised = Exception error | CancelledError

fun fetch_json_from_url :: "http_result \<Rightarrow> raised + role list" where
  "fetch_json_from_url (Response_200 data) = Inr data"
| "fetch_json_from_url Bad_status = Inr []"
| "fetch_json_from_url Bad_json = Inr []"
| "fetch_json_from_url Connection_error = Inr []"
| "fetch_json_from_url Cancelled = Inl CancelledError"

text \<open>
  Lines 463 to 473: the previous data is what the file holds, and the empty list when the
  file is missing or holds no JSON document.
\<close>

definition load_previous_data :: "world \<Rightarrow> string \<Rightarrow> role list" where
  "load_previous_data w previous_data_file =
     (case files w previous_data_file of
        None \<Rightarrow> []
      | Some Not_json \<Rightarrow> []
      | Some (Json_doc old_data) \<Rightarrow> old_data)"

text \<open>
  Lines 461 to 475, and again 477 to 491 for the second repository: fetch, and when the
  list fetched is not empty, load the previous data and process the updates.
\<close>

definition check_repo ::
  "py_env \<Rightarrow> (world \<Rightarrow> world) \<Rightarrow> http_result \<Rightarrow> io_fault \<Rightarrow> string \<Rightarrow> bool \<Rightarrow> world
     \<Rightarrow> raised option \<times> world" where
  "check_repo env others response fault previous_data_file is_second_repo w =
     (let w1 = suspend others w
      in case fetch_json_from_url response of
           Inl x \<Rightarrow> (Some x, w1)
         | Inr new_data \<Rightarrow>
             if new_data \<noteq> [] then
               (case process_repo_updates env others fault new_data
                       (load_previous_data w1 previous_data_file) previous_data_file
                       is_second_repo w1 of
                  (Some e, w2) \<Rightarrow> (Some (Exception e), w2)
                | (None, w2) \<Rightarrow> (None, w2))
             else (None, w1))"

text \<open>Lines 454 to 458: the guard is tested and set with no \<^verbatim>\<open>await\<close> in between.\<close>

definition cycle_begin :: "world \<Rightarrow> world option" where
  "cycle_begin w = (if is_task_running w then None else Some (w\<lparr>is_task_running := True\<rparr>))"

text \<open>Lines 460 to 492, the body of the \<^verbatim>\<open>try\<close>: the first repository, then the second.\<close>

definition cycle_body ::
  "py_env \<Rightarrow> (world \<Rightarrow> world) \<Rightarrow> http_result \<Rightarrow> http_result \<Rightarrow> io_fault \<Rightarrow> io_fault \<Rightarrow> world
     \<Rightarrow> raised option \<times> world" where
  "cycle_body env others response_1 response_2 fault_1 fault_2 w =
     (case check_repo env others response_1 fault_1 PREVIOUS_DATA_FILE False w of
        (Some x, w1) \<Rightarrow> (Some x, w1)
      | (None, w1) \<Rightarrow> check_repo env others response_2 fault_2 PREVIOUS_DATA_FILE_2 True w1)"

text \<open>
  Lines 493 to 498: \<^verbatim>\<open>except Exception\<close> clears the guard and swallows the exception;
  \<^verbatim>\<open>finally\<close> clears the guard whatever left the body.
\<close>

fun cycle_end :: "raised option \<times> world \<Rightarrow> raised option \<times> world" where
  "cycle_end (None, w) = (None, w\<lparr>is_task_running := False\<rparr>)"
| "cycle_end (Some (Exception e), w) = (None, w\<lparr>is_task_running := False\<rparr>)"
| "cycle_end (Some CancelledError, w) = (Some CancelledError, w\<lparr>is_task_running := False\<rparr>)"

definition combined_scheduled_task ::
  "py_env \<Rightarrow> (world \<Rightarrow> world) \<Rightarrow> http_result \<Rightarrow> http_result \<Rightarrow> io_fault \<Rightarrow> io_fault \<Rightarrow> world
     \<Rightarrow> raised option \<times> world" where
  "combined_scheduled_task env others response_1 response_2 fault_1 fault_2 w =
     (case cycle_begin w of
        None \<Rightarrow> (None, w)
      | Some w1 \<Rightarrow> cycle_end (cycle_body env others response_1 response_2 fault_1 fault_2 w1))"

text \<open>\<^verbatim>\<open>try_start_scheduled_task\<close>, what the scheduler calls at every tick.\<close>

definition try_start_scheduled_task :: "world \<Rightarrow> world" where
  "try_start_scheduled_task w =
     (if \<not> is_task_running w
      then w\<lparr>trace := trace w @ [Task_created Combined_scheduled_task]\<rparr>
      else w)"

section \<open>Ticks and cycles interleaved\<close>

text \<open>
  The event loop runs one piece of code at a time, up to its next \<^verbatim>\<open>await\<close>. The pieces
  that touch the guard are: a tick (\<^verbatim>\<open>try_start_scheduled_task\<close>); the start of a task
  created by a tick, which tests and sets the guard; the end of a cycle body, normal or
  by an exception. Everything else that runs, the bodies and the other tasks, never
  assigns \<^verbatim>\<open>is_task_running\<close>. The state is the world and the number of calls of
  \<^verbatim>\<open>combined_scheduled_task\<close> that are inside their \<^verbatim>\<open>try\<close> body.
\<close>

datatype sched_event =
    Tick
  | Task_starts
  | Other_code "world \<Rightarrow> world"
  | Body_finishes "raised option"

fun sched_step :: "sched_event \<Rightarrow> world \<times> nat \<Rightarrow> world \<times> nat" where
  "sched_step Tick (w, n) = (try_start_scheduled_task w, n)"
| "sched_step Task_starts (w, n) =
     (case cycle_begin w of None \<Rightarrow> (w, n) | Some w1 \<Rightarrow> (w1, Suc n))"
| "sched_step (Other_code f) (w, n) = ((f w)\<lparr>is_task_running := is_task_running w\<rparr>, n)"
| "sched_step (Body_finishes x) (w, n) =
     (if n = 0 then (w, n) else (snd (cycle_end (x, w)), n - 1))"

definition run_sched :: "sched_event list \<Rightarrow> world \<times> nat \<Rightarrow> world \<times> nat" where
  "run_sched events s = fold sched_step events s"

section \<open>Tasks and the snapshot write\<close>

text \<open>
  A task handed to \<^verbatim>\<open>loop.create_task\<close> starts to run only when the coroutine that
  created it is suspended. The sends of a feed can therefore be attempted before the
  snapshot file is overwritten only if the coroutine is suspended between the creation of
  the task and the write. The flag tells whether a task was created since the last
  suspension.
\<close>

fun sends_may_start_before_overwrite :: "bool \<Rightarrow> event list \<Rightarrow> bool" where
  "sends_may_start_before_overwrite created [] = True"
| "sends_may_start_before_overwrite created (Suspended # es) =
     sends_may_start_before_overwrite False es"
| "sends_may_start_before_overwrite created (Task_created t # es) =
     sends_may_start_before_overwrite True es"
| "sends_may_start_before_overwrite created (File_overwritten f # es) =
     (\<not> created \<and> sends_may_start_before_overwrite created es)"
| "sends_may_start_before_overwrite created (Send_attempted k # es) =
     sends_may_start_before_overwrite created es"

fun is_overwrite :: "event \<Rightarrow> bool" where
  "is_overwrite (File_overwritten f) = True"
| "is_overwrite e = False"

section \<open>The snapshot write of \<^verbatim>\<open>fetch_latest_data.py\<close>\<close>

text \<open>
  \<^verbatim>\<open>save_json_data(data, file_path)\<close> on the files: the existing file is renamed to the
  backup, the new file is written, and the handler of any exception renames the backup
  back when there is one. The rename to the backup may fail, and so may the write.
\<close>

definition restore_backup :: "string \<Rightarrow> (string \<rightharpoonup> file_content) \<Rightarrow> (string \<rightharpoonup> file_content)" where
  "restore_backup file_path fs =
     (if fs (file_path @ ''.backup'') \<noteq> None
      then fs(file_path := fs (file_path @ ''.backup''), file_path @ ''.backup'' := None)
      else fs)"

definition save_json_data ::
  "bool \<Rightarrow> io_fault \<Rightarrow> role list \<Rightarrow> string \<Rightarrow> (string \<rightharpoonup> file_content)
     \<Rightarrow> bool \<times> (string \<rightharpoonup> file_content)" where
  "save_json_data rename_fails fault data file_path fs =
     (if fs file_path \<noteq> None \<and> rename_fails then (False, restore_backup file_path fs)
      else
        (let fs1 = (if fs file_path \<noteq> None
                    then fs(file_path @ ''.backup'' := fs file_path, file_path := None)
                    else fs)
         in case fault of
              Open_fails \<Rightarrow> (False, restore_backup file_path fs1)
            | Write_fails \<Rightarrow> (False, restore_backup file_path (fs1(file_path \<mapsto> Not_json)))
            | No_fault \<Rightarrow> (True, fs1(file_path \<mapsto> Json_doc data))))"

text \<open>
  The case in which the other tasks leave the skip set and the configuration rows as they
  are while a feed is processed.
\<close>

definition keeps_destinations :: "(world \<Rightarrow> world) \<Rightarrow> bool" where
  "keeps_destinations others =
     (\<forall>w. failed_channels (others w) = failed_channels w \<and>
          guild_configs (others w) = guild_configs w)"

section \<open>Example values\<close>

definition example_env :: py_env where
  "example_env = \<lparr>date_stamp = ''Nov 04'', container_str = (\<lambda>v. ''[]'')\<rparr>"

text \<open>
  A bot at rest with one destination, guild 1 with channel 11 and no ping role, and the
  stored snapshot of the first repository: one listing, with no \<^verbatim>\<open>active\<close> field.
\<close>

definition idle_world :: world where
  "idle_world =
     \<lparr>failed_channels = {}, channel_failure_counts = Map.empty, is_task_running = False,
      files = [PREVIOUS_DATA_FILE \<mapsto> Json_doc [[(''id'', JInt 1)]]],
      guild_configs = [(1, Some 11, None)], trace = []\<rparr>"

text \<open>
  The next fetch of the first repository: the listing is no longer active.
\<close>

definition example_new_data :: "role list" where
  "example_new_data =
     [[(''id'', JInt 1), (''company_name'', JStr ''Acme''), (''title'', JStr ''Intern''),
       (''active'', JBool False)]]"

definition example_deactivation_message :: string where
  "example_deactivation_message =
     deactivation_text example_env (JStr ''Acme'') (JStr ''Intern'') (JStr ''#'')
       EMOJI_UNKNOWN_TERM ''Unknown''"

section \<open>Properties of the diff\<close>

lemma classify_Cons:
  "classify f d (r # rest) t =
     (if has_id r \<and> role_key r = None then Inl TypeError
      else classify f d rest
        (t\<lparr>new_roles := new_roles t @ filter (is_new d) [r],
           deactivated_roles := deactivated_roles t @ filter (is_deactivated d) [r],
           reactivated_roles := reactivated_roles t @ filter (is_reactivated f d) [r]\<rparr>))"
proof (cases "has_id r")
  case False
  then show ?thesis
    by (simp add: is_new_def is_deactivated_def is_reactivated_def)
next
  case True
  show ?thesis
  proof (cases "hash_key (get_none r ''id'')")
    case None
    with True show ?thesis by (simp add: role_key_def)
  next
    case (Some k)
    show ?thesis
    proof (cases "d k")
      case None
      with True Some show ?thesis
        by (simp add: Let_def is_new_def is_deactivated_def is_reactivated_def old_of_def
              role_key_def role_is_active_def role_is_visible_def)
    next
      case (Some old)
      with True \<open>hash_key (get_none r ''id'') = Some k\<close> show ?thesis
        by (simp add: Let_def is_new_def is_deactivated_def is_reactivated_def old_of_def
              role_key_def role_is_active_def role_is_visible_def)
    qed
  qed
qed

lemma classify_filter:
  "classify f d new t = Inr t' \<Longrightarrow>
     new_roles t' = new_roles t @ filter (is_new d) new \<and>
     deactivated_roles t' = deactivated_roles t @ filter (is_deactivated d) new \<and>
     reactivated_roles t' = reactivated_roles t @ filter (is_reactivated f d) new"
proof (induction new arbitrary: t)
  case Nil
  then show ?case by simp
next
  case (Cons r rest)
  from Cons.prems have ok: "\<not> (has_id r \<and> role_key r = None)"
    by (auto simp: classify_Cons simp del: classify.simps split: if_splits)
  with Cons.prems have "classify f d rest
        (t\<lparr>new_roles := new_roles t @ filter (is_new d) [r],
           deactivated_roles := deactivated_roles t @ filter (is_deactivated d) [r],
           reactivated_roles := reactivated_roles t @ filter (is_reactivated f d) [r]\<rparr>) = Inr t'"
    by (simp add: classify_Cons del: classify.simps)
  from Cons.IH [OF this] show ?case by simp
qed


lemma has_id_nonempty: "has_id r \<Longrightarrow> r \<noteq> []"
  by (auto simp: has_id_def)

lemma build_index_Cons:
  "build_index (r # rs) d =
     (if has_id r then
        (case role_key r of None \<Rightarrow> Inl TypeError | Some k \<Rightarrow> build_index rs (d(k \<mapsto> r)))
      else build_index rs d)"
  by (simp add: role_key_def)

lemma build_index_total:
  "\<forall>r\<in>set rs. has_id r \<longrightarrow> role_key r \<noteq> None \<Longrightarrow> \<exists>d'. build_index rs d = Inr d'"
proof (induction rs arbitrary: d)
  case Nil
  then show ?case by simp
next
  case (Cons r rs)
  then show ?case
    by (cases "role_key r") (auto simp: build_index_Cons simp del: build_index.simps)
qed

lemma build_index_other:
  "build_index rs d = Inr d' \<Longrightarrow> Some k \<notin> role_key ` {r \<in> set rs. has_id r} \<Longrightarrow> d' k = d k"
proof (induction rs arbitrary: d)
  case Nil
  then show ?case by simp
next
  case (Cons r rs)
  show ?case
  proof (cases "has_id r")
    case False
    with Cons.prems have "build_index rs d = Inr d'"
      and "Some k \<notin> role_key ` {r \<in> set rs. has_id r}"
      by (auto simp: build_index_Cons simp del: build_index.simps)
    then show ?thesis by (rule Cons.IH)
  next
    case True
    with Cons.prems obtain k' where k': "role_key r = Some k'"
      and b: "build_index rs (d(k' \<mapsto> r)) = Inr d'"
      by (auto simp: build_index_Cons simp del: build_index.simps split: option.splits)
    from Cons.prems(2) True k' have ne: "k' \<noteq> k" by force
    from Cons.prems(2) have "Some k \<notin> role_key ` {r \<in> set rs. has_id r}" by auto
    from Cons.IH [OF b this] ne show ?thesis by simp
  qed
qed

lemma build_index_entries:
  "build_index rs d = Inr d' \<Longrightarrow> d' k = Some r \<Longrightarrow>
     d k = Some r \<or> (r \<in> set rs \<and> has_id r \<and> role_key r = Some k)"
proof (induction rs arbitrary: d)
  case Nil
  then show ?case by simp
next
  case (Cons x rs)
  show ?case
  proof (cases "has_id x")
    case False
    with Cons.prems have "build_index rs d = Inr d'"
      by (simp add: build_index_Cons del: build_index.simps)
    from Cons.IH [OF this Cons.prems(2)] show ?thesis by auto
  next
    case True
    with Cons.prems obtain k' where k': "role_key x = Some k'"
      and b: "build_index rs (d(k' \<mapsto> x)) = Inr d'"
      by (auto simp: build_index_Cons simp del: build_index.simps split: option.splits)
    from Cons.IH [OF b Cons.prems(2)] True k' show ?thesis
      by (auto split: if_splits)
  qed
qed



lemma classify_hashable:
  "classify f d xs t = Inr t' \<Longrightarrow> r \<in> set xs \<Longrightarrow> has_id r \<Longrightarrow> role_key r \<noteq> None"
proof (induction xs arbitrary: t)
  case Nil
  then show ?case by simp
next
  case (Cons x xs)
  from Cons.prems(1) have ok: "\<not> (has_id x \<and> role_key x = None)"
    by (auto simp: classify_Cons simp del: classify.simps split: if_splits)
  show ?case
  proof (cases "r = x")
    case True
    with ok Cons.prems(3) show ?thesis by simp
  next
    case False
    with Cons.prems(2) have "r \<in> set xs" by simp
    moreover from Cons.prems(1) ok obtain t0 where "classify f d xs t0 = Inr t'"
      by (auto simp: classify_Cons simp del: classify.simps split: if_splits)
    ultimately show ?thesis using Cons.prems(3) Cons.IH by blast
  qed
qed

lemma classify_total:
  "\<forall>r\<in>set xs. has_id r \<longrightarrow> role_key r \<noteq> None \<Longrightarrow> \<exists>t'. classify f d xs t = Inr t'"
proof (induction xs arbitrary: t)
  case Nil
  then show ?case by simp
next
  case (Cons x xs)
  then show ?case
    by (simp add: classify_Cons del: classify.simps)
qed

lemma diff_total:
  assumes "\<forall>r\<in>set old_data. has_id r \<longrightarrow> role_key r \<noteq> None"
    and "\<forall>r\<in>set new_data. has_id r \<longrightarrow> role_key r \<noteq> None"
  shows "\<exists>t. diff old_data new_data f = Inr t"
proof -
  from build_index_total [OF assms(1)] obtain d where "build_index old_data Map.empty = Inr d"
    by blast
  with classify_total [OF assms(2)] show ?thesis
    by (simp add: diff_def)
qed


text \<open>
  Claim C5: for every old and new snapshot, when the feed does not support reactivation
  (\<^verbatim>\<open>is_second_repo\<close> is false) the diff yields no Reactivated transition, whatever the
  active and visible flags of the records are.
\<close>

theorem no_reactivation_without_support:
  "diff old_data new_data False = Inr t \<Longrightarrow> reactivated_roles t = []"
proof -
  assume a: "diff old_data new_data False = Inr t"
  then obtain d where "classify False d new_data no_transitions = Inr t"
    by (auto simp: diff_def split: sum.splits)
  from classify_filter [OF this] show ?thesis
    by (auto simp: no_transitions_def is_reactivated_def split: option.splits)
qed

text \<open>
  Claim C10: a record without an \<^verbatim>\<open>active\<close> (a \<^verbatim>\<open>is_visible\<close>) field counts as active
  (visible), the coercion being applied to the default \<^verbatim>\<open>True\<close>. Hence, when the
  identifiers are JSON scalars, a record that carries only an identifier not seen in the old
  snapshot is classified as New, and a record whose stored version has no \<^verbatim>\<open>active\<close>
  field and that is now inactive is classified as Deactivated.
\<close>

theorem absent_flags_default_true:
  "(map_of r ''active'' = None \<longrightarrow> role_is_active r) \<and>
   (map_of r ''is_visible'' = None \<longrightarrow> role_is_visible r) \<and>
   (hashable_ids old_data \<and> hashable_ids new_data \<and> n \<in> set new_data \<and>
      n = [(''id'', v)] \<and> v \<noteq> JNull \<and>
      hash_key v \<notin> set (map role_key (filter has_id old_data))
        \<longrightarrow> (\<exists>t. diff old_data new_data is_second_repo = Inr t \<and> n \<in> set (new_roles t))) \<and>
   (hashable_ids old_data \<and> hashable_ids new_data \<and>
      build_index old_data Map.empty = Inr d \<and>
      m \<in> set new_data \<and> has_id m \<and> role_key m = Some k \<and> d k = Some prev \<and>
      map_of prev ''active'' = None \<and> \<not> role_is_active m
        \<longrightarrow> (\<exists>t. diff old_data new_data is_second_repo = Inr t
                \<and> m \<in> set (deactivated_roles t)))"
proof (intro conjI impI)
  show "role_is_active r" if "map_of r ''active'' = None"
    using that by (simp add: role_is_active_def get_default_def)
  show "role_is_visible r" if "map_of r ''is_visible'' = None"
    using that by (simp add: role_is_visible_def get_default_def)
next
  assume "hashable_ids old_data \<and> hashable_ids new_data \<and> n \<in> set new_data \<and>
      n = [(''id'', v)] \<and> v \<noteq> JNull \<and>
      hash_key v \<notin> set (map role_key (filter has_id old_data))"
  then have h: "hashable_ids old_data" "hashable_ids new_data"
    and mem: "n \<in> set new_data" and n: "n = [(''id'', v)]" and v: "v \<noteq> JNull"
    and fresh: "hash_key v \<notin> role_key ` {x \<in> set old_data. has_id x}"
    by auto
  from h obtain t where a: "diff old_data new_data is_second_repo = Inr t"
    using diff_total [of old_data new_data is_second_repo]
    by (auto simp: hashable_ids_def list_all_iff)
  from a obtain d' where d': "build_index old_data Map.empty = Inr d'"
    and c: "classify is_second_repo d' new_data no_transitions = Inr t"
    by (auto simp: diff_def split: sum.splits)
  from n v have idn: "has_id n" and keyn: "role_key n = hash_key v"
    by (simp_all add: has_id_def role_key_def get_none_def get_default_def)
  from classify_hashable [OF c mem idn] keyn obtain k' where k': "hash_key v = Some k'"
    by auto
  with fresh have "Some k' \<notin> role_key ` {x \<in> set old_data. has_id x}" by simp
  from build_index_other [OF d' this] have "d' k' = None" by simp
  with n k' idn keyn have "is_new d' n"
    by (simp add: is_new_def old_of_def role_is_active_def role_is_visible_def get_default_def)
  with classify_filter [OF c] mem have "n \<in> set (new_roles t)"
    by (simp add: no_transitions_def)
  with a show "\<exists>t. diff old_data new_data is_second_repo = Inr t \<and> n \<in> set (new_roles t)"
    by blast
next
  assume "hashable_ids old_data \<and> hashable_ids new_data \<and>
      build_index old_data Map.empty = Inr d \<and>
      m \<in> set new_data \<and> has_id m \<and> role_key m = Some k \<and> d k = Some prev \<and>
      map_of prev ''active'' = None \<and> \<not> role_is_active m"
  then have h: "hashable_ids old_data" "hashable_ids new_data"
    and d: "build_index old_data Map.empty = Inr d"
    and mem: "m \<in> set new_data" and idm: "has_id m" and keym: "role_key m = Some k"
    and prev: "d k = Some prev" and absent: "map_of prev ''active'' = None"
    and inactive: "\<not> role_is_active m"
    by blast+
  from h obtain t where a: "diff old_data new_data is_second_repo = Inr t"
    using diff_total [of old_data new_data is_second_repo]
    by (auto simp: hashable_ids_def list_all_iff)
  from a d have c: "classify is_second_repo d new_data no_transitions = Inr t"
    by (simp add: diff_def)
  from build_index_entries [OF d prev] have "has_id prev" by simp
  then have "prev \<noteq> []" by (rule has_id_nonempty)
  with idm keym prev absent inactive have "is_deactivated d m"
    by (simp add: is_deactivated_def old_of_def role_is_active_def get_default_def)
  with classify_filter [OF c] mem have "m \<in> set (deactivated_roles t)"
    by (simp add: no_transitions_def)
  with a show "\<exists>t. diff old_data new_data is_second_repo = Inr t \<and> m \<in> set (deactivated_roles t)"
    by blast
qed

lemmas diff_eval = diff_def has_id_def get_none_def get_default_def no_transitions_def
  role_key_def

theorem no_reactivation_without_support_witness:
  "diff [[(''id'', JInt 1), (''active'', JBool False)]]
        [[(''id'', JInt 1), (''active'', JBool True), (''is_visible'', JBool True)]] False
     = Inr no_transitions
   \<and> reactivated_roles no_transitions = []"
proof -
  have h: "diff [[(''id'', JInt 1), (''active'', JBool False)]]
        [[(''id'', JInt 1), (''active'', JBool True), (''is_visible'', JBool True)]] False
     = Inr no_transitions"
    by (simp add: diff_eval)
  from no_reactivation_without_support [OF h] h show ?thesis by simp
qed

lemma reactivation_with_support_example:
  "diff [[(''id'', JInt 1), (''active'', JBool False)]]
        [[(''id'', JInt 1), (''active'', JBool True), (''is_visible'', JBool True)]] True
     = Inr \<lparr>new_roles = [], deactivated_roles = [],
            reactivated_roles =
              [[(''id'', JInt 1), (''active'', JBool True), (''is_visible'', JBool True)]]\<rparr>"
  by (simp add: diff_eval)



theorem absent_flags_default_true_witness:
  "map_of [(''id'', JInt 2)] ''active'' = None \<and> role_is_active [(''id'', JInt 2)]
   \<and> map_of [(''id'', JInt 2)] ''is_visible'' = None \<and> role_is_visible [(''id'', JInt 2)]
   \<and> hashable_ids [[(''id'', JInt 1)]]
   \<and> hashable_ids [[(''id'', JInt 1), (''active'', JBool False)], [(''id'', JInt 2)]]
   \<and> hash_key (JInt 2) \<notin> set (map role_key (filter has_id [[(''id'', JInt 1)]]))
   \<and> build_index [[(''id'', JInt 1)]] Map.empty = Inr [KInt 1 \<mapsto> [(''id'', JInt 1)]]
   \<and> map_of [(''id'', JInt 1)] ''active'' = None
   \<and> \<not> role_is_active [(''id'', JInt 1), (''active'', JBool False)]
   \<and> (\<exists>t. diff [[(''id'', JInt 1)]]
              [[(''id'', JInt 1), (''active'', JBool False)], [(''id'', JInt 2)]] False = Inr t
          \<and> [(''id'', JInt 2)] \<in> set (new_roles t))
   \<and> (\<exists>t. diff [[(''id'', JInt 1)]]
              [[(''id'', JInt 1), (''active'', JBool False)], [(''id'', JInt 2)]] False = Inr t
          \<and> [(''id'', JInt 1), (''active'', JBool False)] \<in> set (deactivated_roles t))"
proof -
  let ?old = "[[(''id'', JInt 1)]]"
  let ?m = "[(''id'', JInt 1), (''active'', JBool False)]"
  let ?n = "[(''id'', JInt 2)]"
  have h1: "map_of ?n ''active'' = None" "map_of ?n ''is_visible'' = None" by simp_all
  have h2: "hashable_ids ?old" "hashable_ids [?m, ?n]"
    by (simp_all add: diff_eval hashable_ids_def)
  have h3: "hash_key (JInt 2) \<notin> set (map role_key (filter has_id ?old))"
    by (simp add: diff_eval)
  have h4: "build_index ?old Map.empty = Inr [KInt 1 \<mapsto> [(''id'', JInt 1)]]"
    by (simp add: diff_eval)
  have h5: "has_id ?m" "role_key ?m = Some (KInt 1)" "\<not> role_is_active ?m"
    "map_of [(''id'', JInt 1)] ''active'' = None"
    by (simp_all add: diff_eval role_is_active_def)
  from absent_flags_default_true [of ?n ?old "[?m, ?n]" ?n "JInt 2" False
      "[KInt 1 \<mapsto> [(''id'', JInt 1)]]" ?m "KInt 1" "[(''id'', JInt 1)]"]
    h1 h2 h3 h4 h5
  show ?thesis by simp
qed

lemma diff_new_and_deactivated_example:
  "diff [[(''id'', JInt 1)]]
        [[(''id'', JInt 1), (''active'', JBool False)], [(''id'', JInt 2)]] False
     = Inr \<lparr>new_roles = [[(''id'', JInt 2)]],
            deactivated_roles = [[(''id'', JInt 1), (''active'', JBool False)]],
            reactivated_roles = []\<rparr>"
  by (simp add: diff_eval)
section \<open>Term resolution\<close>

lemmas emoji_defs = EMOJI_SUMMER_def EMOJI_WINTER_def EMOJI_FALL_def EMOJI_UNKNOWN_TERM_def

lemma lower_fall_winter: "lower ''Fall, Winter'' = ''fall, winter''"
  by (simp add: lower_def lower_char_def)

lemma term_of_fall_winter:
  assumes "map_of role_data ''season'' = Some (JList [JStr ''Fall'', JStr ''Winter''])"
  shows "get_term_emoji_and_string role_data = Inr (EMOJI_WINTER @ EMOJI_FALL, ''Fall, Winter'')"
  using assms
  by (simp add: get_term_emoji_and_string_def get_none_def get_default_def Let_def
        lower_fall_winter startswith_def)

text \<open>
  Claim C8, as amended: a record with neither a \<^verbatim>\<open>season\<close> nor a \<^verbatim>\<open>terms\<close> field
  resolves to the string "Unknown" with the single unknown-term marker, and a record with
  \<^verbatim>\<open>season = ["Fall", "Winter"]\<close> resolves to "Fall, Winter" with the winter marker
  followed by the fall marker.
\<close>

theorem term_resolution:
  "(map_of role_data ''season'' = None \<and> map_of role_data ''terms'' = None
      \<longrightarrow> get_term_emoji_and_string role_data = Inr (EMOJI_UNKNOWN_TERM, ''Unknown''))
   \<and> (map_of role_data ''season'' = Some (JList [JStr ''Fall'', JStr ''Winter''])
      \<longrightarrow> get_term_emoji_and_string role_data
            = Inr (EMOJI_WINTER @ EMOJI_FALL, ''Fall, Winter''))"
  by (simp add: term_of_fall_winter)
     (simp add: get_term_emoji_and_string_def get_none_def get_default_def)

text \<open>
  The claim C8 as stated puts the fall marker before the winter marker; the function
  appends the winter marker first.
\<close>

theorem term_resolution_order_counterexample:
  "get_term_emoji_and_string [(''season'', JList [JStr ''Fall'', JStr ''Winter''])]
     \<noteq> Inr (EMOJI_FALL @ EMOJI_WINTER, ''Fall, Winter'')"
  by (simp add: term_of_fall_winter emoji_defs)

theorem term_resolution_witness:
  "map_of [(''id'', JInt 1)] ''season'' = None \<and> map_of [(''id'', JInt 1)] ''terms'' = None
   \<and> get_term_emoji_and_string [(''id'', JInt 1)] = Inr (EMOJI_UNKNOWN_TERM, ''Unknown'')
   \<and> map_of [(''season'', JList [JStr ''Fall'', JStr ''Winter''])] ''season''
        = Some (JList [JStr ''Fall'', JStr ''Winter''])
   \<and> get_term_emoji_and_string [(''season'', JList [JStr ''Fall'', JStr ''Winter''])]
        = Inr (EMOJI_WINTER @ EMOJI_FALL, ''Fall, Winter'')"
  using term_resolution [of "[(''id'', JInt 1)]"]
    term_resolution [of "[(''season'', JList [JStr ''Fall'', JStr ''Winter''])]"]
  by simp

section \<open>The mention policy\<close>














lemma role_mention_example: "role_mention 42 = ''<@&42> '' \<and> role_mention (- 7) = ''<@&-7> ''"
  by (simp add: role_mention_def str_of_int_def str_of_nat.simps)




section \<open>The circuit breaker\<close>

lemma record_outcome_other:
  "k' \<noteq> k \<Longrightarrow> failure_count (record_outcome k' r w) k = failure_count w k"
  "k' \<noteq> k \<Longrightarrow> (k \<in> failed_channels (record_outcome k' r w)) = (k \<in> failed_channels w)"
  by (cases r; simp add: record_outcome_def failure_count_def Let_def)+

lemma record_outcome_keeps_skip:
  "r \<noteq> Sent \<Longrightarrow> k \<in> failed_channels w \<Longrightarrow> k \<in> failed_channels (record_outcome k r w)"
  by (cases r; simp add: record_outcome_def failure_count_def Let_def)

lemma record_outcome_retry:
  "retryable_failure r \<Longrightarrow> failure_count (record_outcome k r w) k = failure_count w k + 1"
  by (cases r; simp add: record_outcome_def failure_count_def Let_def)

lemma record_outcome_threshold:
  "MAX_RETRIES \<le> failure_count (record_outcome k r w) k \<Longrightarrow>
     k \<in> failed_channels (record_outcome k r w)"
  by (cases r; simp add: record_outcome_def failure_count_def Let_def split: if_splits)

lemma record_outcome_permanent:
  "permanent_failure r \<Longrightarrow> k \<in> failed_channels (record_outcome k r w)"
  by (cases r; simp add: record_outcome_def failure_count_def Let_def)

lemma record_all_other:
  "\<forall>(k', r) \<in> set es. k' \<noteq> k \<Longrightarrow>
     failure_count (record_all es w) k = failure_count w k \<and>
     (k \<in> failed_channels (record_all es w)) = (k \<in> failed_channels w)"
proof (induction es arbitrary: w)
  case Nil
  then show ?case by simp
next
  case (Cons e es)
  obtain k' r where e: "e = (k', r)" by (cases e)
  with Cons.prems have ne: "k' \<noteq> k" and rest: "\<forall>(k', r) \<in> set es. k' \<noteq> k" by auto
  from Cons.IH [OF rest, of "record_outcome k' r w"] record_outcome_other [OF ne] e
  show ?case by simp
qed

lemma record_all_keeps_skip:
  "(k, Sent) \<notin> set es \<Longrightarrow> k \<in> failed_channels w \<Longrightarrow> k \<in> failed_channels (record_all es w)"
proof (induction es arbitrary: w)
  case Nil
  then show ?case by simp
next
  case (Cons e es)
  obtain k' r where e: "e = (k', r)" by (cases e)
  have "k \<in> failed_channels (record_outcome k' r w)"
  proof (cases "k' = k")
    case True
    with Cons.prems e have "r \<noteq> Sent" by auto
    with True Cons.prems(2) show ?thesis by (simp add: record_outcome_keeps_skip)
  next
    case False
    with Cons.prems(2) show ?thesis by (simp add: record_outcome_other)
  qed
  moreover from Cons.prems(1) have "(k, Sent) \<notin> set es" by simp
  ultimately show ?case using Cons.IH e by simp
qed

lemma three_retryable_failures:
  assumes "retryable_failure r1" "retryable_failure r2" "retryable_failure r3"
    and "\<forall>(k', r) \<in> set between1. k' \<noteq> k" "\<forall>(k', r) \<in> set between2. k' \<noteq> k"
  shows "k \<in> failed_channels
           (record_outcome k r3 (record_all between2
              (record_outcome k r2 (record_all between1 (record_outcome k r1 w)))))"
proof -
  let ?w1 = "record_outcome k r1 w"
  let ?w2 = "record_outcome k r2 (record_all between1 ?w1)"
  let ?w3 = "record_outcome k r3 (record_all between2 ?w2)"
  have "failure_count ?w1 k = failure_count w k + 1"
    using assms(1) by (rule record_outcome_retry)
  then have "failure_count ?w2 k = failure_count w k + 2"
    using record_outcome_retry [OF assms(2)] record_all_other [OF assms(4)] by simp
  then have "failure_count ?w3 k = failure_count w k + 3"
    using record_outcome_retry [OF assms(3)] record_all_other [OF assms(5)] by simp
  then have "MAX_RETRIES \<le> failure_count ?w3 k" by (simp add: MAX_RETRIES_def)
  then show ?thesis by (rule record_outcome_threshold)
qed

text \<open>
  Claim C3: for every destination key, once three retryable failures (not found, or any
  other exception) have been recorded for it in a row, results for other keys coming in
  between or not, the key is skipped, and it stays skipped through every later sequence
  of results that records no success for it; a recorded success puts the counter of the
  key back to zero and takes the key out of the skip set; one permanent failure
  (\<^verbatim>\<open>Forbidden\<close>, or a channel that is not a text channel) makes the key skipped at
  once, whatever the counter was, and it stays so likewise.
\<close>

theorem circuit_breaker:
  "(retryable_failure r1 \<and> retryable_failure r2 \<and> retryable_failure r3 \<and>
    (\<forall>(k', r) \<in> set between1. k' \<noteq> k) \<and> (\<forall>(k', r) \<in> set between2. k' \<noteq> k) \<and>
    (k, Sent) \<notin> set later
      \<longrightarrow> should_skip
            (record_all later (record_outcome k r3 (record_all between2
               (record_outcome k r2 (record_all between1 (record_outcome k r1 w)))))) k)
   \<and> failure_count (record_outcome k Sent w) k = 0
   \<and> \<not> should_skip (record_outcome k Sent w) k
   \<and> (permanent_failure r \<and> (k, Sent) \<notin> set later
      \<longrightarrow> should_skip (record_all later (record_outcome k r w)) k)"
proof (intro conjI impI)
  assume "retryable_failure r1 \<and> retryable_failure r2 \<and> retryable_failure r3 \<and>
    (\<forall>(k', r) \<in> set between1. k' \<noteq> k) \<and> (\<forall>(k', r) \<in> set between2. k' \<noteq> k) \<and>
    (k, Sent) \<notin> set later"
  then have r: "retryable_failure r1" "retryable_failure r2" "retryable_failure r3"
    and b: "\<forall>(k', r) \<in> set between1. k' \<noteq> k" "\<forall>(k', r) \<in> set between2. k' \<noteq> k"
    and l: "(k, Sent) \<notin> set later"
    by blast+
  from three_retryable_failures [OF r b] record_all_keeps_skip [OF l]
  show "should_skip
            (record_all later (record_outcome k r3 (record_all between2
               (record_outcome k r2 (record_all between1 (record_outcome k r1 w)))))) k"
    by (simp add: should_skip_def)
next
  show "failure_count (record_outcome k Sent w) k = 0"
    by (simp add: record_outcome_def failure_count_def MAX_RETRIES_def)
  show "\<not> should_skip (record_outcome k Sent w) k"
    by (simp add: record_outcome_def failure_count_def MAX_RETRIES_def should_skip_def)
next
  assume "permanent_failure r \<and> (k, Sent) \<notin> set later"
  then show "should_skip (record_all later (record_outcome k r w)) k"
    using record_outcome_permanent record_all_keeps_skip by (simp add: should_skip_def)
qed

theorem circuit_breaker_witness:
  "retryable_failure Not_found \<and> retryable_failure Other_exception
   \<and> (''2:22'', Sent) \<notin> set [(''2:22'', Not_found), (''1:11'', Sent)]
   \<and> permanent_failure Forbidden
   \<and> should_skip
        (record_all [(''2:22'', Not_found), (''1:11'', Sent)]
           (record_outcome ''2:22'' Not_found (record_all []
              (record_outcome ''2:22'' Other_exception (record_all [(''1:11'', Sent)]
                 (record_outcome ''2:22'' Not_found
                    \<lparr>failed_channels = {}, channel_failure_counts = Map.empty,
                     is_task_running = False, files = Map.empty, guild_configs = [],
                     trace = []\<rparr>)))))) ''2:22''
   \<and> should_skip
        (record_all [(''2:22'', Not_found), (''1:11'', Sent)]
           (record_outcome ''2:22'' Forbidden
              \<lparr>failed_channels = {}, channel_failure_counts = Map.empty,
               is_task_running = False, files = Map.empty, guild_configs = [],
               trace = []\<rparr>)) ''2:22''"
  using circuit_breaker [of Not_found Other_exception Not_found "[(''1:11'', Sent)]" "''2:22''" "[]"
      "[(''2:22'', Not_found), (''1:11'', Sent)]"
      "\<lparr>failed_channels = {}, channel_failure_counts = Map.empty,
                     is_task_running = False, files = Map.empty, guild_configs = [],
                     trace = []\<rparr>" Forbidden]
  by simp

lemma skipped_destination_not_attempted:
  "should_skip w (channel_key_of guild_id channel_id) \<Longrightarrow>
     send_discord_message result message guild_id channel_id w = w"
  by (simp add: send_discord_message_def)

lemma two_failures_do_not_skip:
  "\<not> should_skip
        (record_outcome ''2:22'' Not_found (record_outcome ''2:22'' Other_exception
            \<lparr>failed_channels = {}, channel_failure_counts = Map.empty,
             is_task_running = False, files = Map.empty, guild_configs = [],
             trace = []\<rparr>)) ''2:22''"
  by (simp add: record_outcome_def failure_count_def MAX_RETRIES_def should_skip_def)

section \<open>What processing a feed does to the state\<close>

lemma suspend_simps [simp]:
  "files (suspend others w) = files w"
  "is_task_running (suspend others w) = is_task_running w"
  "trace (suspend others w) = trace w @ [Suspended]"
  by (simp_all add: suspend_def)

lemma suspend_keeps:
  "keeps_destinations others \<Longrightarrow> failed_channels (suspend others w) = failed_channels w"
  "keeps_destinations others \<Longrightarrow> guild_configs (suspend others w) = guild_configs w"
  by (simp_all add: suspend_def keeps_destinations_def)

lemma channels_cong:
  "guild_configs w1 = guild_configs w \<Longrightarrow> get_all_channels_from_db w1 = get_all_channels_from_db w"
  "guild_configs w1 = guild_configs w \<Longrightarrow> get_all_guild_ping_roles w1 = get_all_guild_ping_roles w"
  by (simp_all add: get_all_channels_from_db_def get_all_guild_ping_roles_def)

lemma create_send_tasks_effect:
  "create_send_tasks format_for cfgs w = (r, w') \<Longrightarrow>
     \<exists>evs. w' = w\<lparr>trace := trace w @ evs\<rparr> \<and> (\<forall>e\<in>set evs. \<not> is_overwrite e) \<and>
       (r = None \<longrightarrow>
          (\<forall>g c. (g, c) \<in> set cfgs \<and> channel_key_of g c \<notin> failed_channels w \<longrightarrow>
             (\<exists>m. format_for g = Inr m \<and> Task_created (Send_discord_message m g c) \<in> set evs)))"
proof (induction cfgs arbitrary: w)
  case Nil
  then have "w' = w\<lparr>trace := trace w @ []\<rparr>" by simp
  then show ?case by (intro exI [of _ "[]"]) simp
next
  case (Cons a cfgs)
  obtain g c where a: "a = (g, c)" by (cases a)
  show ?case
  proof (cases "channel_key_of g c \<in> failed_channels w")
    case True
    with Cons.prems a have "create_send_tasks format_for cfgs w = (r, w')" by simp
    from Cons.IH [OF this] True a show ?thesis by auto
  next
    case False
    show ?thesis
    proof (cases "format_for g")
      case (Inl e)
      with Cons.prems a False have "w' = w\<lparr>trace := trace w @ []\<rparr>" "r = Some e" by simp_all
      then show ?thesis by (intro exI [of _ "[]"]) simp
    next
      case (Inr m)
      let ?w1 = "w\<lparr>trace := trace w @ [Task_created (Send_discord_message m g c)]\<rparr>"
      from Cons.prems a False Inr have "create_send_tasks format_for cfgs ?w1 = (r, w')"
        by simp
      from Cons.IH [OF this] obtain evs where
        w': "w' = ?w1\<lparr>trace := trace ?w1 @ evs\<rparr>" and
        no: "\<forall>e\<in>set evs. \<not> is_overwrite e" and
        all: "r = None \<longrightarrow>
          (\<forall>g c. (g, c) \<in> set cfgs \<and> channel_key_of g c \<notin> failed_channels ?w1 \<longrightarrow>
             (\<exists>m. format_for g = Inr m \<and> Task_created (Send_discord_message m g c) \<in> set evs))"
        by blast
      let ?evs = "Task_created (Send_discord_message m g c) # evs"
      from w' have "w' = w\<lparr>trace := trace w @ ?evs\<rparr>" by simp
      moreover from no have "\<forall>e\<in>set ?evs. \<not> is_overwrite e" by simp
      moreover from all a Inr have "r = None \<longrightarrow>
          (\<forall>g c. (g, c) \<in> set (a # cfgs) \<and> channel_key_of g c \<notin> failed_channels w \<longrightarrow>
             (\<exists>m. format_for g = Inr m \<and> Task_created (Send_discord_message m g c) \<in> set ?evs))"
        by auto
      ultimately show ?thesis by blast
    qed
  qed
qed


lemma notify_per_channel_effect:
  "notify_per_channel others format_role roles w = (r, w') \<Longrightarrow>
     \<exists>evs. trace w' = trace w @ evs \<and> files w' = files w \<and>
       is_task_running w' = is_task_running w \<and> (\<forall>e\<in>set evs. \<not> is_overwrite e) \<and>
       (keeps_destinations others \<longrightarrow>
          failed_channels w' = failed_channels w \<and> guild_configs w' = guild_configs w \<and>
          (r = None \<longrightarrow>
             (\<forall>role\<in>set roles. \<forall>g c. (g, c) \<in> set (get_all_channels_from_db w) \<and>
                channel_key_of g c \<notin> failed_channels w \<longrightarrow>
                (\<exists>m. format_role role g = Inr m \<and>
                     Task_created (Send_discord_message m g c) \<in> set evs))))"
proof (induction roles arbitrary: w)
  case Nil
  then show ?case by simp
next
  case (Cons role roles)
  let ?w1 = "suspend others w"
  obtain r1 w2 where c: "create_send_tasks (format_role role) (get_all_channels_from_db ?w1) ?w1
      = (r1, w2)"
    by (cases "create_send_tasks (format_role role) (get_all_channels_from_db ?w1) ?w1")
  from create_send_tasks_effect [OF c] obtain evs1 where
    w2: "w2 = ?w1\<lparr>trace := trace ?w1 @ evs1\<rparr>" and
    no1: "\<forall>e\<in>set evs1. \<not> is_overwrite e" and
    all1: "r1 = None \<longrightarrow>
          (\<forall>g c. (g, c) \<in> set (get_all_channels_from_db ?w1) \<and>
             channel_key_of g c \<notin> failed_channels ?w1 \<longrightarrow>
             (\<exists>m. format_role role g = Inr m \<and>
                  Task_created (Send_discord_message m g c) \<in> set evs1))"
    by blast
  from w2 have t2: "trace w2 = trace w @ Suspended # evs1" and f2: "files w2 = files w"
    and g2: "is_task_running w2 = is_task_running w"
    and k2: "failed_channels w2 = failed_channels ?w1" "guild_configs w2 = guild_configs ?w1"
    by simp_all
  show ?case
  proof (cases r1)
    case (Some e)
    with Cons.prems c have "r = Some e" "w' = w2" by (simp_all add: Let_def)
    with t2 f2 g2 k2 no1 show ?thesis
      by (intro exI [of _ "Suspended # evs1"]) (simp add: suspend_keeps)
  next
    case None
    with Cons.prems c have "notify_per_channel others format_role roles w2 = (r, w')"
      by (simp add: Let_def)
    from Cons.IH [OF this] obtain evs2 where
      t: "trace w' = trace w2 @ evs2" and f: "files w' = files w2"
      and g: "is_task_running w' = is_task_running w2"
      and no2: "\<forall>e\<in>set evs2. \<not> is_overwrite e"
      and all2: "keeps_destinations others \<longrightarrow>
          failed_channels w' = failed_channels w2 \<and> guild_configs w' = guild_configs w2 \<and>
          (r = None \<longrightarrow>
             (\<forall>role\<in>set roles. \<forall>g c. (g, c) \<in> set (get_all_channels_from_db w2) \<and>
                channel_key_of g c \<notin> failed_channels w2 \<longrightarrow>
                (\<exists>m. format_role role g = Inr m \<and>
                     Task_created (Send_discord_message m g c) \<in> set evs2)))"
      by blast
    let ?evs = "Suspended # evs1 @ evs2"
    have "trace w' = trace w @ ?evs" using t t2 by simp
    moreover have "files w' = files w" using f f2 by simp
    moreover have "is_task_running w' = is_task_running w" using g g2 by simp
    moreover have "\<forall>e\<in>set ?evs. \<not> is_overwrite e" using no1 no2 by auto
    moreover have "keeps_destinations others \<longrightarrow>
          failed_channels w' = failed_channels w \<and> guild_configs w' = guild_configs w \<and>
          (r = None \<longrightarrow>
             (\<forall>role\<in>set (role # roles). \<forall>g c. (g, c) \<in> set (get_all_channels_from_db w) \<and>
                channel_key_of g c \<notin> failed_channels w \<longrightarrow>
                (\<exists>m. format_role role g = Inr m \<and>
                     Task_created (Send_discord_message m g c) \<in> set ?evs)))"
    proof
      assume k: "keeps_destinations others"
      then have e1: "failed_channels ?w1 = failed_channels w" "guild_configs ?w1 = guild_configs w"
        by (simp_all add: suspend_keeps)
      with k2 have e2: "failed_channels w2 = failed_channels w" "guild_configs w2 = guild_configs w"
        by simp_all
      have ch: "get_all_channels_from_db ?w1 = get_all_channels_from_db w"
        "get_all_channels_from_db w2 = get_all_channels_from_db w"
        using e1(2) e2(2) by (simp_all add: get_all_channels_from_db_def)
      from all2 k e2 have "failed_channels w' = failed_channels w" "guild_configs w' = guild_configs w"
        by simp_all
      moreover have "r = None \<longrightarrow>
             (\<forall>role\<in>set (role # roles). \<forall>g c. (g, c) \<in> set (get_all_channels_from_db w) \<and>
                channel_key_of g c \<notin> failed_channels w \<longrightarrow>
                (\<exists>m. format_role role g = Inr m \<and>
                     Task_created (Send_discord_message m g c) \<in> set ?evs))"
      proof (intro impI ballI allI)
        fix role' g c
        assume rn: "r = None" and rm: "role' \<in> set (role # roles)"
          and gc: "(g, c) \<in> set (get_all_channels_from_db w) \<and>
                channel_key_of g c \<notin> failed_channels w"
        show "\<exists>m. format_role role' g = Inr m \<and>
                     Task_created (Send_discord_message m g c) \<in> set ?evs"
        proof (cases "role' = role")
          case True
          from all1 None e1 ch have "\<forall>g c. (g, c) \<in> set (get_all_channels_from_db w) \<and>
             channel_key_of g c \<notin> failed_channels w \<longrightarrow>
             (\<exists>m. format_role role g = Inr m \<and>
                  Task_created (Send_discord_message m g c) \<in> set evs1)"
            by simp
          with gc obtain m where "format_role role g = Inr m"
            "Task_created (Send_discord_message m g c) \<in> set evs1"
            by blast
          with True show ?thesis by auto
        next
          case False
          with rm have "role' \<in> set roles" by simp
          moreover from all2 k rn e2 ch have "\<forall>role\<in>set roles. \<forall>g c.
                (g, c) \<in> set (get_all_channels_from_db w) \<and>
                channel_key_of g c \<notin> failed_channels w \<longrightarrow>
                (\<exists>m. format_role role g = Inr m \<and>
                     Task_created (Send_discord_message m g c) \<in> set evs2)"
            by simp
          ultimately obtain m where "format_role role' g = Inr m"
            "Task_created (Send_discord_message m g c) \<in> set evs2"
            using gc by blast
          then show ?thesis by auto
        qed
      qed
      ultimately show "failed_channels w' = failed_channels w \<and> guild_configs w' = guild_configs w \<and>
          (r = None \<longrightarrow>
             (\<forall>role\<in>set (role # roles). \<forall>g c. (g, c) \<in> set (get_all_channels_from_db w) \<and>
                channel_key_of g c \<notin> failed_channels w \<longrightarrow>
                (\<exists>m. format_role role g = Inr m \<and>
                     Task_created (Send_discord_message m g c) \<in> set ?evs)))"
        by blast
    qed
    ultimately show ?thesis by blast
  qed
qed

lemma notify_deactivated_effect:
  "notify_deactivated env roles w = (r, w') \<Longrightarrow>
     \<exists>evs. w' = w\<lparr>trace := trace w @ evs\<rparr> \<and>
       (\<forall>e\<in>set evs. \<exists>m. e = Task_created (Send_messages_to_all m)) \<and>
       (r = None \<longrightarrow> length evs = length roles) \<and>
       (r = None \<longrightarrow>
          (\<forall>role\<in>set roles.
             \<exists>m. format_deactivation_message env role = Inr m \<and>
                 Task_created (Send_messages_to_all m) \<in> set evs))"
proof (induction roles arbitrary: w)
  case Nil
  then have "w' = w\<lparr>trace := trace w @ []\<rparr>" by simp
  then show ?case by (intro exI [of _ "[]"]) simp
next
  case (Cons role roles)
  show ?case
  proof (cases "format_deactivation_message env role")
    case (Inl e)
    with Cons.prems have "w' = w\<lparr>trace := trace w @ []\<rparr>" "r = Some e" by simp_all
    then show ?thesis by (intro exI [of _ "[]"]) simp
  next
    case (Inr m)
    let ?w1 = "w\<lparr>trace := trace w @ [Task_created (Send_messages_to_all m)]\<rparr>"
    from Cons.prems Inr have "notify_deactivated env roles ?w1 = (r, w')" by simp
    from Cons.IH [OF this] obtain evs where
      w': "w' = ?w1\<lparr>trace := trace ?w1 @ evs\<rparr>" and
      no: "\<forall>e\<in>set evs. \<exists>m. e = Task_created (Send_messages_to_all m)" and
      len: "r = None \<longrightarrow> length evs = length roles" and
      all: "r = None \<longrightarrow>
          (\<forall>role\<in>set roles.
             \<exists>m. format_deactivation_message env role = Inr m \<and>
                 Task_created (Send_messages_to_all m) \<in> set evs)"
      by blast
    let ?evs = "Task_created (Send_messages_to_all m) # evs"
    from w' have "w' = w\<lparr>trace := trace w @ ?evs\<rparr>" by simp
    moreover from no have "\<forall>e\<in>set ?evs. \<exists>m. e = Task_created (Send_messages_to_all m)" by simp
    moreover from len have "r = None \<longrightarrow> length ?evs = length (role # roles)" by simp
    moreover from all Inr have "r = None \<longrightarrow>
          (\<forall>role\<in>set (role # roles).
             \<exists>m. format_deactivation_message env role = Inr m \<and>
                 Task_created (Send_messages_to_all m) \<in> set ?evs)"
      by auto
    ultimately show ?thesis by blast
  qed
qed

section \<open>The guard of the cycle\<close>

lemma cycle_end_clears: "\<not> is_task_running (snd (cycle_end (x, w)))"
proof (cases x)
  case None
  then show ?thesis by simp
next
  case (Some r)
  then show ?thesis by (cases r) simp_all
qed

lemma sched_step_invariant:
  assumes "n \<le> 1 \<and> (is_task_running w \<longleftrightarrow> n = 1)"
    and "sched_step ev (w, n) = (w', n')"
  shows "n' \<le> 1 \<and> (is_task_running w' \<longleftrightarrow> n' = 1)"
proof (cases ev)
  case Tick
  with assms show ?thesis by (auto simp: try_start_scheduled_task_def)
next
  case Task_starts
  with assms show ?thesis by (auto simp: cycle_begin_def split: if_splits)
next
  case (Other_code f)
  with assms show ?thesis by auto
next
  case (Body_finishes x)
  show ?thesis
  proof (cases "n = 0")
    case True
    with assms Body_finishes show ?thesis by auto
  next
    case False
    with assms Body_finishes have "w' = snd (cycle_end (x, w))" "n' = n - 1" by auto
    with assms(1) False cycle_end_clears [of x w] show ?thesis by auto
  qed
qed

lemma run_sched_invariant:
  "n \<le> 1 \<and> (is_task_running w \<longleftrightarrow> n = 1) \<Longrightarrow> run_sched events (w, n) = (w', n') \<Longrightarrow>
     n' \<le> 1 \<and> (is_task_running w' \<longleftrightarrow> n' = 1)"
proof (induction events arbitrary: w n)
  case Nil
  then show ?case by (simp add: run_sched_def)
next
  case (Cons ev events)
  obtain w1 n1 where s: "sched_step ev (w, n) = (w1, n1)" by (cases "sched_step ev (w, n)")
  from sched_step_invariant [OF Cons.prems(1) s]
  have "n1 \<le> 1 \<and> (is_task_running w1 \<longleftrightarrow> n1 = 1)" .
  moreover from Cons.prems(2) s have "run_sched events (w1, n1) = (w', n')"
    by (simp add: run_sched_def)
  ultimately show ?case by (rule Cons.IH)
qed

lemma combined_clears_guard:
  "\<not> is_task_running w \<Longrightarrow>
     \<not> is_task_running (snd (combined_scheduled_task env others r1 r2 f1 f2 w))"
proof -
  assume "\<not> is_task_running w"
  then have "combined_scheduled_task env others r1 r2 f1 f2 w =
      cycle_end (cycle_body env others r1 r2 f1 f2 (w\<lparr>is_task_running := True\<rparr>))"
    by (simp add: combined_scheduled_task_def cycle_begin_def)
  then show ?thesis
    using cycle_end_clears
      [of "fst (cycle_body env others r1 r2 f1 f2 (w\<lparr>is_task_running := True\<rparr>))"
          "snd (cycle_body env others r1 r2 f1 f2 (w\<lparr>is_task_running := True\<rparr>))"]
    by simp
qed

text \<open>
  Claim C4: however ticks, task starts, other code and cycle ends are interleaved from a
  state at rest, at most one call of \<^verbatim>\<open>combined_scheduled_task\<close> is inside its body at
  any time; a tick that arrives while a cycle runs changes nothing (no task is created,
  nothing is queued), and a task started meanwhile returns at once; the guard is cleared
  when the body ends, normally or by an exception, also one that escapes; so after a
  cycle, whatever happened in it, the next one can start.
\<close>

theorem single_cycle_guard:
  "(\<not> is_task_running w \<longrightarrow> snd (run_sched events (w, 0)) \<le> 1)
   \<and> (is_task_running w \<longrightarrow>
        try_start_scheduled_task w = w \<and> cycle_begin w = None \<and>
        combined_scheduled_task env others first_response second_response first_fault second_fault w = (None, w))
   \<and> \<not> is_task_running (snd (cycle_end (x, w)))
   \<and> (\<not> is_task_running w \<longrightarrow>
        \<not> is_task_running
            (snd (combined_scheduled_task env others first_response second_response first_fault second_fault w))
        \<and> cycle_begin
            (snd (combined_scheduled_task env others first_response second_response first_fault second_fault w))
           \<noteq> None)"
proof (intro conjI impI)
  assume idle: "\<not> is_task_running w"
  obtain w' n' where r: "run_sched events (w, 0) = (w', n')"
    by (cases "run_sched events (w, 0)")
  from idle have "(0::nat) \<le> 1 \<and> (is_task_running w \<longleftrightarrow> (0::nat) = 1)" by simp
  from run_sched_invariant [OF this r] r show "snd (run_sched events (w, 0)) \<le> 1" by simp
next
  assume "is_task_running w"
  then show "try_start_scheduled_task w = w" "cycle_begin w = None"
    "combined_scheduled_task env others first_response second_response first_fault second_fault w = (None, w)"
    by (simp_all add: try_start_scheduled_task_def cycle_begin_def combined_scheduled_task_def)
next
  show "\<not> is_task_running (snd (cycle_end (x, w)))" by (rule cycle_end_clears)
next
  assume idle: "\<not> is_task_running w"
  from combined_clears_guard [OF idle]
  show c: "\<not> is_task_running
            (snd (combined_scheduled_task env others first_response second_response first_fault second_fault w))" .
  then show "cycle_begin
            (snd (combined_scheduled_task env others first_response second_response first_fault second_fault w))
           \<noteq> None"
    by (simp add: cycle_begin_def)
qed

section \<open>Dispatch and the snapshot write\<close>

lemma write_previous_data_effect:
  "is_task_running (write_previous_data fault file new_data w) = is_task_running w"
  "f' \<noteq> file \<Longrightarrow> files (write_previous_data fault file new_data w) f' = files w f'"
  "fault \<noteq> Open_fails \<Longrightarrow>
     trace (write_previous_data fault file new_data w) = trace w @ [File_overwritten file]"
  by (cases fault; simp add: write_previous_data_def)+

lemma tasks_then_overwrite:
  assumes "ys \<noteq> []" and "\<forall>e\<in>set ys. \<exists>t. e = Task_created t"
  shows "\<not> sends_may_start_before_overwrite b (ys @ File_overwritten f # rest)"
  using assms
proof (induction ys arbitrary: b)
  case Nil
  then show ?case by simp
next
  case (Cons y ys)
  then obtain t where y: "y = Task_created t" by auto
  show ?case
  proof (cases "ys = []")
    case True
    with y show ?thesis by simp
  next
    case False
    with Cons y show ?thesis by simp
  qed
qed

lemma created_tasks_not_started:
  assumes "ys \<noteq> []" and "\<forall>e\<in>set ys. \<exists>t. e = Task_created t"
  shows "\<not> sends_may_start_before_overwrite b (xs @ ys @ File_overwritten f # rest)"
proof (induction xs arbitrary: b)
  case Nil
  from tasks_then_overwrite [OF assms] show ?case by simp
next
  case (Cons x xs)
  then show ?case by (cases x) simp_all
qed


lemma process_repo_updates_stages:
  assumes "process_repo_updates env others fault new_data old_data file flag w = (None, w')"
  shows "\<exists>d t w2 w3 w4.
      build_index old_data Map.empty = Inr d \<and>
      classify flag d new_data no_transitions = Inr t \<and>
      notify_per_channel others
        (\<lambda>role guild_id. format_message env role guild_id
            (get_all_guild_ping_roles (suspend others w)))
        (new_roles t) (suspend others w) = (None, w2) \<and>
      notify_deactivated env (deactivated_roles t) w2 = (None, w3) \<and>
      (if flag then
         notify_per_channel others
           (\<lambda>role guild_id. format_reactivation_message env role guild_id
               (get_all_guild_ping_roles (suspend others w)))
           (reactivated_roles t) w3
       else (None, w3)) = (None, w4) \<and>
      w' = write_previous_data fault file new_data w4"
proof -
  from assms obtain d where d: "build_index old_data Map.empty = Inr d"
    by (cases "build_index old_data Map.empty") (simp_all add: process_repo_updates_def)
  from assms d obtain t where t: "classify flag d new_data no_transitions = Inr t"
    by (cases "classify flag d new_data no_transitions")
       (simp_all add: process_repo_updates_def Let_def)
  let ?w1 = "suspend others w"
  let ?gpr = "get_all_guild_ping_roles ?w1"
  obtain r2 w2 where n: "notify_per_channel others
        (\<lambda>role guild_id. format_message env role guild_id ?gpr) (new_roles t) ?w1 = (r2, w2)"
    by (cases "notify_per_channel others
        (\<lambda>role guild_id. format_message env role guild_id ?gpr) (new_roles t) ?w1")
  from assms d t n have r2: "r2 = None"
    by (cases r2) (simp_all add: process_repo_updates_def Let_def)
  obtain r3 w3 where nd: "notify_deactivated env (deactivated_roles t) w2 = (r3, w3)"
    by (cases "notify_deactivated env (deactivated_roles t) w2")
  from assms d t n r2 nd have r3: "r3 = None"
    by (cases r3) (simp_all add: process_repo_updates_def Let_def)
  obtain r4 w4 where nr: "(if flag then
         notify_per_channel others
           (\<lambda>role guild_id. format_reactivation_message env role guild_id ?gpr)
           (reactivated_roles t) w3
       else (None, w3)) = (r4, w4)"
    by (cases "(if flag then
         notify_per_channel others
           (\<lambda>role guild_id. format_reactivation_message env role guild_id ?gpr)
           (reactivated_roles t) w3
       else (None, w3))")
  from assms d t n r2 nd r3 nr have r4: "r4 = None"
    by (cases r4) (simp_all add: process_repo_updates_def Let_def)
  from assms d t n r2 nd r3 nr r4 have "w' = write_previous_data fault file new_data w4"
    by (simp add: process_repo_updates_def Let_def)
  with d t n r2 nd r3 nr r4 show ?thesis by blast
qed


lemma record_outcome_trace: "trace (record_outcome k r w) = trace w"
  by (cases r; simp add: record_outcome_def Let_def)

lemma gathered_sends_attempted:
  assumes "distinct (map (\<lambda>(g, c). channel_key_of g c) cfgs)"
    and "\<forall>(g, c)\<in>set cfgs. channel_key_of g c \<notin> failed_channels v"
  shows "trace (fold (\<lambda>(g, c). send_discord_message (result_of g c) message g c) cfgs v)
           = trace v @ map (\<lambda>(g, c). Send_attempted (channel_key_of g c)) cfgs"
  using assms
proof (induction cfgs arbitrary: v)
  case Nil
  then show ?case by simp
next
  case (Cons a cfgs)
  obtain g c where a: "a = (g, c)" by (cases a)
  let ?k = "channel_key_of g c"
  let ?v1 = "record_outcome ?k (result_of g c) (v\<lparr>trace := trace v @ [Send_attempted ?k]\<rparr>)"
  from Cons.prems(2) a have s: "send_discord_message (result_of g c) message g c v = ?v1"
    by (simp add: send_discord_message_def should_skip_def)
  from Cons.prems(1) a have d: "distinct (map (\<lambda>(g, c). channel_key_of g c) cfgs)"
    and fresh: "\<forall>(g', c')\<in>set cfgs. channel_key_of g' c' \<noteq> ?k"
    by (auto simp: image_iff)
  have "\<forall>(g', c')\<in>set cfgs. channel_key_of g' c' \<notin> failed_channels ?v1"
  proof (intro ballI, clarify)
    fix g' c'
    assume m: "(g', c') \<in> set cfgs" and f: "channel_key_of g' c' \<in> failed_channels ?v1"
    from fresh m have ne: "?k \<noteq> channel_key_of g' c'" by auto
    from f record_outcome_other(2) [OF ne] have "channel_key_of g' c' \<in> failed_channels v"
      by simp
    with Cons.prems(2) m show False by auto
  qed
  from Cons.IH [OF d this] a s show ?case
    by (simp add: record_outcome_trace)
qed

lemma gather_waits_for_sends:
  assumes "distinct (map (\<lambda>(g, c). channel_key_of g c) (get_all_channels_from_db (suspend others v)))"
  shows "trace (send_messages_to_all_configured_channels others result_of message v)
      = trace v @ Suspended #
          map (\<lambda>(g, c). Send_attempted (channel_key_of g c))
            (filter (\<lambda>(g, c). channel_key_of g c \<notin> failed_channels (suspend others v))
               (get_all_channels_from_db (suspend others v)))"
proof -
  let ?v1 = "suspend others v"
  let ?cfgs = "get_all_channels_from_db ?v1"
  let ?active = "filter (\<lambda>(g, c). channel_key_of g c \<notin> failed_channels ?v1) ?cfgs"
  from assms have d: "distinct (map (\<lambda>(g, c). channel_key_of g c) ?active)"
    by (rule distinct_map_filter)
  have f: "\<forall>(g, c)\<in>set ?active. channel_key_of g c \<notin> failed_channels ?v1" by auto
  from gathered_sends_attempted [OF d f, of result_of message] show ?thesis
    by (cases "?cfgs = []") (simp_all add: send_messages_to_all_configured_channels_def Let_def)
qed

text \<open>
  Claim C1, as amended. When \<^verbatim>\<open>process_repo_updates\<close> returns and the snapshot file got
  overwritten, every send of the feed was handed to the event loop as a task before the
  overwrite, which is the last thing the function did: one fan-out task for each
  Deactivated transition and, when the skip set and the configuration stay as they are
  meanwhile, one task for each New (and, for the second repository, Reactivated) transition
  and each configured channel that is not skipped. The function waits for none of these
  tasks: for the first repository with a Deactivated transition, no suspension lies
  between the creation of the last task and the overwrite, so that send cannot have been
  attempted before the snapshot is overwritten. The fan-out task itself, once it runs,
  returns only after a send to every configured channel that is not skipped has been
  attempted (the keys of the channels being distinct).
\<close>

theorem tasks_created_before_overwrite:
  assumes p: "process_repo_updates env others fault new_data old_data previous_data_file
                is_second_repo w = (None, w')"
    and fault: "fault \<noteq> Open_fails"
  shows "(\<exists>evs t.
      diff old_data new_data is_second_repo = Inr t \<and>
      trace w' = trace w @ evs @ [File_overwritten previous_data_file] \<and>
      (\<forall>e\<in>set evs. \<not> is_overwrite e) \<and>
      (\<forall>role\<in>set (deactivated_roles t).
         \<exists>m. format_deactivation_message env role = Inr m \<and>
             Task_created (Send_messages_to_all m) \<in> set evs) \<and>
      (\<not> is_second_repo \<and> deactivated_roles t \<noteq> [] \<longrightarrow>
         \<not> sends_may_start_before_overwrite False
             (evs @ [File_overwritten previous_data_file])) \<and>
      (keeps_destinations others \<longrightarrow>
         (\<forall>role\<in>set (new_roles t). \<forall>g c.
            (g, c) \<in> set (get_all_channels_from_db w) \<and>
            channel_key_of g c \<notin> failed_channels w \<longrightarrow>
            (\<exists>m. format_message env role g (get_all_guild_ping_roles w) = Inr m \<and>
                 Task_created (Send_discord_message m g c) \<in> set evs)) \<and>
         (is_second_repo \<longrightarrow>
            (\<forall>role\<in>set (reactivated_roles t). \<forall>g c.
               (g, c) \<in> set (get_all_channels_from_db w) \<and>
               channel_key_of g c \<notin> failed_channels w \<longrightarrow>
               (\<exists>m. format_reactivation_message env role g (get_all_guild_ping_roles w) = Inr m \<and>
                    Task_created (Send_discord_message m g c) \<in> set evs)))))
    \<and> (distinct (map (\<lambda>(g, c). channel_key_of g c)
                    (get_all_channels_from_db (suspend others v))) \<longrightarrow>
         trace (send_messages_to_all_configured_channels others result_of message v)
           = trace v @ Suspended #
               map (\<lambda>(g, c). Send_attempted (channel_key_of g c))
                 (filter (\<lambda>(g, c). channel_key_of g c \<notin> failed_channels (suspend others v))
                    (get_all_channels_from_db (suspend others v))))"
proof -
  let ?w1 = "suspend others w"
  let ?gpr = "get_all_guild_ping_roles ?w1"
  let ?fn = "\<lambda>role guild_id. format_message env role guild_id ?gpr"
  let ?fr = "\<lambda>role guild_id. format_reactivation_message env role guild_id ?gpr"
  from process_repo_updates_stages [OF p] obtain d t w2 w3 w4 where
    d: "build_index old_data Map.empty = Inr d" and
    t: "classify is_second_repo d new_data no_transitions = Inr t" and
    n: "notify_per_channel others ?fn (new_roles t) ?w1 = (None, w2)" and
    nd: "notify_deactivated env (deactivated_roles t) w2 = (None, w3)" and
    nr: "(if is_second_repo then notify_per_channel others ?fr (reactivated_roles t) w3
         else (None, w3)) = (None, w4)" and
    w': "w' = write_previous_data fault previous_data_file new_data w4"
    by blast
  from d t have df: "diff old_data new_data is_second_repo = Inr t"
    by (simp add: diff_def)
  from notify_per_channel_effect [OF n] obtain evs_n where
    tn: "trace w2 = trace ?w1 @ evs_n" and
    non: "\<forall>e\<in>set evs_n. \<not> is_overwrite e" and
    alln: "keeps_destinations others \<longrightarrow>
          failed_channels w2 = failed_channels ?w1 \<and> guild_configs w2 = guild_configs ?w1 \<and>
          (\<forall>role\<in>set (new_roles t). \<forall>g c. (g, c) \<in> set (get_all_channels_from_db ?w1) \<and>
                channel_key_of g c \<notin> failed_channels ?w1 \<longrightarrow>
                (\<exists>m. ?fn role g = Inr m \<and>
                     Task_created (Send_discord_message m g c) \<in> set evs_n))"
    by auto
  from notify_deactivated_effect [OF nd] obtain evs_d where
    w3: "w3 = w2\<lparr>trace := trace w2 @ evs_d\<rparr>" and
    tasks_d: "\<forall>e\<in>set evs_d. \<exists>m. e = Task_created (Send_messages_to_all m)" and
    len_d: "length evs_d = length (deactivated_roles t)" and
    alld: "\<forall>role\<in>set (deactivated_roles t).
             \<exists>m. format_deactivation_message env role = Inr m \<and>
                 Task_created (Send_messages_to_all m) \<in> set evs_d"
    by auto
  have "\<exists>evs_r. trace w4 = trace w3 @ evs_r \<and> (\<forall>e\<in>set evs_r. \<not> is_overwrite e) \<and>
          (\<not> is_second_repo \<longrightarrow> evs_r = []) \<and>
          (keeps_destinations others \<and> is_second_repo \<longrightarrow>
            (\<forall>role\<in>set (reactivated_roles t). \<forall>g c. (g, c) \<in> set (get_all_channels_from_db w3) \<and>
                channel_key_of g c \<notin> failed_channels w3 \<longrightarrow>
                (\<exists>m. ?fr role g = Inr m \<and>
                     Task_created (Send_discord_message m g c) \<in> set evs_r)))"
  proof (cases is_second_repo)
    case True
    with nr have "notify_per_channel others ?fr (reactivated_roles t) w3 = (None, w4)" by simp
    from notify_per_channel_effect [OF this] True show ?thesis by auto
  next
    case False
    with nr have "w4 = w3" by simp
    with False show ?thesis by simp
  qed
  then obtain evs_r where
    tr: "trace w4 = trace w3 @ evs_r" and
    nor: "\<forall>e\<in>set evs_r. \<not> is_overwrite e" and
    first: "\<not> is_second_repo \<longrightarrow> evs_r = []" and
    allr: "keeps_destinations others \<and> is_second_repo \<longrightarrow>
            (\<forall>role\<in>set (reactivated_roles t). \<forall>g c. (g, c) \<in> set (get_all_channels_from_db w3) \<and>
                channel_key_of g c \<notin> failed_channels w3 \<longrightarrow>
                (\<exists>m. ?fr role g = Inr m \<and>
                     Task_created (Send_discord_message m g c) \<in> set evs_r))"
    by blast
  let ?evs = "Suspended # evs_n @ evs_d @ evs_r"
  have trace: "trace w' = trace w @ ?evs @ [File_overwritten previous_data_file]"
    using w' fault tn w3 tr by (simp add: write_previous_data_effect)
  have no: "\<forall>e\<in>set ?evs. \<not> is_overwrite e"
    using non tasks_d nor by auto
  have deact: "\<forall>role\<in>set (deactivated_roles t).
         \<exists>m. format_deactivation_message env role = Inr m \<and>
             Task_created (Send_messages_to_all m) \<in> set ?evs"
    using alld by auto
  have late: "\<not> is_second_repo \<and> deactivated_roles t \<noteq> [] \<longrightarrow>
         \<not> sends_may_start_before_overwrite False
             (?evs @ [File_overwritten previous_data_file])"
  proof
    assume a: "\<not> is_second_repo \<and> deactivated_roles t \<noteq> []"
    with len_d have ne: "evs_d \<noteq> []" by auto
    from tasks_d have "\<forall>e\<in>set evs_d. \<exists>t. e = Task_created t" by blast
    from created_tasks_not_started [OF ne this, of False "Suspended # evs_n"
        previous_data_file "[]"] a first
    show "\<not> sends_may_start_before_overwrite False
             (?evs @ [File_overwritten previous_data_file])"
      by simp
  qed
  have stable: "keeps_destinations others \<longrightarrow>
         (\<forall>role\<in>set (new_roles t). \<forall>g c.
            (g, c) \<in> set (get_all_channels_from_db w) \<and>
            channel_key_of g c \<notin> failed_channels w \<longrightarrow>
            (\<exists>m. format_message env role g (get_all_guild_ping_roles w) = Inr m \<and>
                 Task_created (Send_discord_message m g c) \<in> set ?evs)) \<and>
         (is_second_repo \<longrightarrow>
            (\<forall>role\<in>set (reactivated_roles t). \<forall>g c.
               (g, c) \<in> set (get_all_channels_from_db w) \<and>
               channel_key_of g c \<notin> failed_channels w \<longrightarrow>
               (\<exists>m. format_reactivation_message env role g (get_all_guild_ping_roles w) = Inr m \<and>
                    Task_created (Send_discord_message m g c) \<in> set ?evs)))"
  proof
    assume k: "keeps_destinations others"
    then have e1: "failed_channels ?w1 = failed_channels w" "guild_configs ?w1 = guild_configs w"
      by (simp_all add: suspend_keeps)
    then have c1: "get_all_channels_from_db ?w1 = get_all_channels_from_db w"
      and g1: "?gpr = get_all_guild_ping_roles w"
      by (simp_all add: get_all_channels_from_db_def get_all_guild_ping_roles_def)
    from alln k e1 have e2: "failed_channels w2 = failed_channels w"
      "guild_configs w2 = guild_configs w"
      by simp_all
    with w3 have e3: "failed_channels w3 = failed_channels w" "guild_configs w3 = guild_configs w"
      by simp_all
    then have c3: "get_all_channels_from_db w3 = get_all_channels_from_db w"
      by (simp add: get_all_channels_from_db_def)
    have new: "\<forall>role\<in>set (new_roles t). \<forall>g c.
            (g, c) \<in> set (get_all_channels_from_db w) \<and>
            channel_key_of g c \<notin> failed_channels w \<longrightarrow>
            (\<exists>m. format_message env role g (get_all_guild_ping_roles w) = Inr m \<and>
                 Task_created (Send_discord_message m g c) \<in> set evs_n)"
      using alln k e1 c1 g1 by simp
    have react: "is_second_repo \<longrightarrow>
            (\<forall>role\<in>set (reactivated_roles t). \<forall>g c.
               (g, c) \<in> set (get_all_channels_from_db w) \<and>
               channel_key_of g c \<notin> failed_channels w \<longrightarrow>
               (\<exists>m. format_reactivation_message env role g (get_all_guild_ping_roles w) = Inr m \<and>
                    Task_created (Send_discord_message m g c) \<in> set evs_r))"
      using allr k e3 c3 g1 by simp
    from new have "\<forall>role\<in>set (new_roles t). \<forall>g c.
            (g, c) \<in> set (get_all_channels_from_db w) \<and>
            channel_key_of g c \<notin> failed_channels w \<longrightarrow>
            (\<exists>m. format_message env role g (get_all_guild_ping_roles w) = Inr m \<and>
                 Task_created (Send_discord_message m g c) \<in> set ?evs)"
      by (simp, blast)
    moreover from react have "is_second_repo \<longrightarrow>
            (\<forall>role\<in>set (reactivated_roles t). \<forall>g c.
               (g, c) \<in> set (get_all_channels_from_db w) \<and>
               channel_key_of g c \<notin> failed_channels w \<longrightarrow>
               (\<exists>m. format_reactivation_message env role g (get_all_guild_ping_roles w) = Inr m \<and>
                    Task_created (Send_discord_message m g c) \<in> set ?evs))"
      by (simp, blast)
    ultimately show "(\<forall>role\<in>set (new_roles t). \<forall>g c.
            (g, c) \<in> set (get_all_channels_from_db w) \<and>
            channel_key_of g c \<notin> failed_channels w \<longrightarrow>
            (\<exists>m. format_message env role g (get_all_guild_ping_roles w) = Inr m \<and>
                 Task_created (Send_discord_message m g c) \<in> set ?evs)) \<and>
         (is_second_repo \<longrightarrow>
            (\<forall>role\<in>set (reactivated_roles t). \<forall>g c.
               (g, c) \<in> set (get_all_channels_from_db w) \<and>
               channel_key_of g c \<notin> failed_channels w \<longrightarrow>
               (\<exists>m. format_reactivation_message env role g (get_all_guild_ping_roles w) = Inr m \<and>
                    Task_created (Send_discord_message m g c) \<in> set ?evs)))"
      by blast
  qed
  from df trace no deact late stable have "\<exists>evs t.
      diff old_data new_data is_second_repo = Inr t \<and>
      trace w' = trace w @ evs @ [File_overwritten previous_data_file] \<and>
      (\<forall>e\<in>set evs. \<not> is_overwrite e) \<and>
      (\<forall>role\<in>set (deactivated_roles t).
         \<exists>m. format_deactivation_message env role = Inr m \<and>
             Task_created (Send_messages_to_all m) \<in> set evs) \<and>
      (\<not> is_second_repo \<and> deactivated_roles t \<noteq> [] \<longrightarrow>
         \<not> sends_may_start_before_overwrite False
             (evs @ [File_overwritten previous_data_file])) \<and>
      (keeps_destinations others \<longrightarrow>
         (\<forall>role\<in>set (new_roles t). \<forall>g c.
            (g, c) \<in> set (get_all_channels_from_db w) \<and>
            channel_key_of g c \<notin> failed_channels w \<longrightarrow>
            (\<exists>m. format_message env role g (get_all_guild_ping_roles w) = Inr m \<and>
                 Task_created (Send_discord_message m g c) \<in> set evs)) \<and>
         (is_second_repo \<longrightarrow>
            (\<forall>role\<in>set (reactivated_roles t). \<forall>g c.
               (g, c) \<in> set (get_all_channels_from_db w) \<and>
               channel_key_of g c \<notin> failed_channels w \<longrightarrow>
               (\<exists>m. format_reactivation_message env role g (get_all_guild_ping_roles w) = Inr m \<and>
                    Task_created (Send_discord_message m g c) \<in> set evs))))"
    by blast
  then show ?thesis using gather_waits_for_sends [of others v result_of message] by blast
qed

lemma example_run:
  "process_repo_updates example_env (\<lambda>w. w) No_fault example_new_data [[(''id'', JInt 1)]]
     PREVIOUS_DATA_FILE False idle_world
   = (None,
      \<lparr>failed_channels = {}, channel_failure_counts = Map.empty, is_task_running = False,
       files = [PREVIOUS_DATA_FILE \<mapsto> Json_doc example_new_data],
       guild_configs = [(1, Some 11, None)],
       trace = [Suspended, Task_created (Send_messages_to_all example_deactivation_message),
                File_overwritten PREVIOUS_DATA_FILE]\<rparr>)"
  by (simp add: process_repo_updates_def idle_world_def example_new_data_def suspend_def
        has_id_def get_none_def get_default_def no_transitions_def
        format_deactivation_message_def get_term_emoji_and_string_def
        example_deactivation_message_def write_previous_data_def)

text \<open>
  The claim C1 as stated fails: for the first repository, the task that will send the
  Deactivated message is created and the snapshot file is overwritten at once, with no
  suspension in between, so the send is attempted only after the overwrite.
\<close>

theorem send_after_overwrite_counterexample:
  "trace (snd (process_repo_updates example_env (\<lambda>w. w) No_fault example_new_data
                 [[(''id'', JInt 1)]] PREVIOUS_DATA_FILE False idle_world))
     = [Suspended, Task_created (Send_messages_to_all example_deactivation_message),
        File_overwritten PREVIOUS_DATA_FILE]
   \<and> \<not> sends_may_start_before_overwrite False
         [Suspended, Task_created (Send_messages_to_all example_deactivation_message),
          File_overwritten PREVIOUS_DATA_FILE]"
  by (simp add: example_run)

theorem tasks_created_before_overwrite_witness:
  "process_repo_updates example_env (\<lambda>w. w) No_fault example_new_data [[(''id'', JInt 1)]]
     PREVIOUS_DATA_FILE False idle_world
   = (None,
      \<lparr>failed_channels = {}, channel_failure_counts = Map.empty, is_task_running = False,
       files = [PREVIOUS_DATA_FILE \<mapsto> Json_doc example_new_data],
       guild_configs = [(1, Some 11, None)],
       trace = [Suspended, Task_created (Send_messages_to_all example_deactivation_message),
                File_overwritten PREVIOUS_DATA_FILE]\<rparr>)
   \<and> No_fault \<noteq> Open_fails
   \<and> keeps_destinations (\<lambda>w. w)
   \<and> (\<exists>evs t.
        diff [[(''id'', JInt 1)]] example_new_data False = Inr t \<and>
        [Suspended, Task_created (Send_messages_to_all example_deactivation_message),
         File_overwritten PREVIOUS_DATA_FILE]
          = trace idle_world @ evs @ [File_overwritten PREVIOUS_DATA_FILE] \<and>
        (\<forall>e\<in>set evs. \<not> is_overwrite e) \<and>
        (\<forall>role\<in>set (deactivated_roles t).
           \<exists>m. format_deactivation_message example_env role = Inr m \<and>
               Task_created (Send_messages_to_all m) \<in> set evs) \<and>
        (deactivated_roles t \<noteq> [] \<longrightarrow>
           \<not> sends_may_start_before_overwrite False
               (evs @ [File_overwritten PREVIOUS_DATA_FILE])) \<and>
        (\<forall>role\<in>set (new_roles t). \<forall>g c.
            (g, c) \<in> set (get_all_channels_from_db idle_world) \<and>
            channel_key_of g c \<notin> failed_channels idle_world \<longrightarrow>
            (\<exists>m. format_message example_env role g (get_all_guild_ping_roles idle_world) = Inr m \<and>
                 Task_created (Send_discord_message m g c) \<in> set evs)))
   \<and> distinct (map (\<lambda>(g, c). channel_key_of g c)
                 (get_all_channels_from_db (suspend (\<lambda>w. w) idle_world)))
   \<and> trace (send_messages_to_all_configured_channels (\<lambda>w. w) (\<lambda>g c. Sent)
               example_deactivation_message idle_world)
        = [Suspended, Send_attempted (channel_key_of 1 11)]"
proof -
  have k: "keeps_destinations (\<lambda>w. w)" by (simp add: keeps_destinations_def)
  have f: "No_fault \<noteq> Open_fails" by simp
  have c: "get_all_channels_from_db (suspend (\<lambda>w. w) idle_world) = [(1, 11)]"
    "failed_channels (suspend (\<lambda>w. w) idle_world) = {}" "trace idle_world = []"
    by (simp_all add: idle_world_def suspend_def get_all_channels_from_db_def
          List.map_filter_def)
  from tasks_created_before_overwrite [OF example_run f, of idle_world "\<lambda>g c. Sent"
      example_deactivation_message] k example_run f c
  show ?thesis by simp
qed


lemma gather_example:
  "trace (send_messages_to_all_configured_channels (\<lambda>w. w) (\<lambda>g c. Sent)
            example_deactivation_message idle_world)
     = [Suspended, Send_attempted (channel_key_of 1 11)]"
  by (simp add: send_messages_to_all_configured_channels_def idle_world_def suspend_def
        get_all_channels_from_db_def List.map_filter_def send_discord_message_def
        should_skip_def record_outcome_trace)

section \<open>A feed whose fetch is empty\<close>

lemma create_send_tasks_files:
  "files (snd (create_send_tasks format_for cfgs w)) = files w"
  "is_task_running (snd (create_send_tasks format_for cfgs w)) = is_task_running w"
proof -
  obtain r w' where c: "create_send_tasks format_for cfgs w = (r, w')"
    by (cases "create_send_tasks format_for cfgs w")
  from create_send_tasks_effect [OF c] c
  show "files (snd (create_send_tasks format_for cfgs w)) = files w"
    "is_task_running (snd (create_send_tasks format_for cfgs w)) = is_task_running w"
    by auto
qed

lemma notify_per_channel_files:
  "files (snd (notify_per_channel others format_role roles w)) = files w"
proof -
  obtain r w' where c: "notify_per_channel others format_role roles w = (r, w')"
    by (cases "notify_per_channel others format_role roles w")
  from notify_per_channel_effect [OF c] c show ?thesis by auto
qed

lemma notify_deactivated_files:
  "files (snd (notify_deactivated env roles w)) = files w"
proof -
  obtain r w' where c: "notify_deactivated env roles w = (r, w')"
    by (cases "notify_deactivated env roles w")
  from notify_deactivated_effect [OF c] c show ?thesis by auto
qed

lemma process_repo_updates_files:
  assumes "f' \<noteq> file"
  shows "files (snd (process_repo_updates env others fault new_data old_data file flag w)) f'
           = files w f'"
proof (cases "build_index old_data Map.empty")
  case (Inl e)
  then show ?thesis by (simp add: process_repo_updates_def)
next
  case (Inr d)
  let ?w1 = "suspend others w"
  let ?gpr = "get_all_guild_ping_roles ?w1"
  show ?thesis
  proof (cases "classify flag d new_data no_transitions")
    case (Inl e)
    with Inr show ?thesis by (simp add: process_repo_updates_def Let_def)
  next
    case t: (Inr t)
    obtain r2 w2 where n: "notify_per_channel others
        (\<lambda>role guild_id. format_message env role guild_id ?gpr) (new_roles t) ?w1 = (r2, w2)"
      by (cases "notify_per_channel others
        (\<lambda>role guild_id. format_message env role guild_id ?gpr) (new_roles t) ?w1")
    from notify_per_channel_files [of others
        "\<lambda>role guild_id. format_message env role guild_id ?gpr" "new_roles t" ?w1] n
    have f2: "files w2 = files w" by simp
    obtain r3 w3 where nd: "notify_deactivated env (deactivated_roles t) w2 = (r3, w3)"
      by (cases "notify_deactivated env (deactivated_roles t) w2")
    from notify_deactivated_files [of env "deactivated_roles t" w2] nd f2
    have f3: "files w3 = files w" by simp
    obtain r4 w4 where nr: "(if flag then
         notify_per_channel others
           (\<lambda>role guild_id. format_reactivation_message env role guild_id ?gpr)
           (reactivated_roles t) w3
       else (None, w3)) = (r4, w4)"
      by (cases "(if flag then
         notify_per_channel others
           (\<lambda>role guild_id. format_reactivation_message env role guild_id ?gpr)
           (reactivated_roles t) w3
       else (None, w3))")
    from notify_per_channel_files [of others
        "\<lambda>role guild_id. format_reactivation_message env role guild_id ?gpr"
        "reactivated_roles t" w3] nr f3
    have f4: "files w4 = files w" by (cases flag) auto
    show ?thesis
      using Inr t n nd nr f2 f3 f4 assms
      by (cases r2; cases r3; cases r4)
         (simp_all add: process_repo_updates_def Let_def write_previous_data_effect)
  qed
qed

lemma check_repo_files:
  assumes "f' \<noteq> file"
  shows "files (snd (check_repo env others response fault file flag w)) f' = files w f'"
proof (cases "fetch_json_from_url response")
  case (Inl x)
  then show ?thesis by (simp add: check_repo_def)
next
  case (Inr new_data)
  show ?thesis
  proof (cases "new_data = []")
    case True
    with Inr show ?thesis by (simp add: check_repo_def)
  next
    case False
    let ?w1 = "suspend others w"
    let ?p = "process_repo_updates env others fault new_data
                (load_previous_data ?w1 file) file flag ?w1"
    have "snd (check_repo env others response fault file flag w) = snd ?p"
      using Inr False by (cases ?p; cases "fst ?p") (auto simp: check_repo_def Let_def)
    with process_repo_updates_files [OF assms, of env others fault new_data
        "load_previous_data ?w1 file" flag ?w1]
    show ?thesis by simp
  qed
qed

lemma check_repo_empty:
  "fetch_json_from_url response = Inr [] \<Longrightarrow>
     check_repo env others response fault file flag w = (None, suspend others w)"
  by (simp add: check_repo_def)

lemma cycle_end_files: "files (snd (cycle_end (x, w))) = files w"
proof (cases x)
  case None
  then show ?thesis by simp
next
  case (Some r)
  then show ?thesis by (cases r) simp_all
qed

lemma cycle_end_trace: "trace (snd (cycle_end (x, w))) = trace w"
proof (cases x)
  case None
  then show ?thesis by simp
next
  case (Some r)
  then show ?thesis by (cases r) simp_all
qed

lemma data_files_differ: "PREVIOUS_DATA_FILE \<noteq> PREVIOUS_DATA_FILE_2"
  by (simp add: PREVIOUS_DATA_FILE_def PREVIOUS_DATA_FILE_2_def)

lemma cycle_body_first_empty:
  assumes "fetch_json_from_url first_response = Inr []"
  shows "files (snd (cycle_body env others first_response second_response first_fault
                       second_fault w))
           PREVIOUS_DATA_FILE = files w PREVIOUS_DATA_FILE"
proof -
  have "cycle_body env others first_response second_response first_fault second_fault w
      = check_repo env others second_response second_fault PREVIOUS_DATA_FILE_2 True
          (suspend others w)"
    using assms by (simp add: cycle_body_def check_repo_empty)
  with check_repo_files [OF data_files_differ, of env others second_response second_fault True
      "suspend others w"]
  show ?thesis by simp
qed

lemma cycle_body_second_empty:
  assumes "fetch_json_from_url second_response = Inr []"
  shows "files (snd (cycle_body env others first_response second_response first_fault
                       second_fault w))
           PREVIOUS_DATA_FILE_2 = files w PREVIOUS_DATA_FILE_2"
proof -
  let ?c1 = "check_repo env others first_response first_fault PREVIOUS_DATA_FILE False w"
  have f1: "files (snd ?c1) PREVIOUS_DATA_FILE_2 = files w PREVIOUS_DATA_FILE_2"
    using data_files_differ by (intro check_repo_files) simp
  show ?thesis
  proof (cases "fst ?c1")
    case None
    then have "cycle_body env others first_response second_response first_fault second_fault w
        = (None, suspend others (snd ?c1))"
      using assms by (cases ?c1) (simp add: cycle_body_def check_repo_empty)
    with f1 show ?thesis by simp
  next
    case (Some x)
    then have "cycle_body env others first_response second_response first_fault second_fault w
        = (Some x, snd ?c1)"
      by (cases ?c1) (simp add: cycle_body_def)
    with f1 show ?thesis by simp
  qed
qed

lemma combined_files:
  "files (snd (combined_scheduled_task env others first_response second_response first_fault
                 second_fault w)) f
     = (if is_task_running w then files w f
        else files (snd (cycle_body env others first_response second_response first_fault
                           second_fault (w\<lparr>is_task_running := True\<rparr>))) f)"
  using cycle_end_files
    [of "fst (cycle_body env others first_response second_response first_fault second_fault
                (w\<lparr>is_task_running := True\<rparr>))"
        "snd (cycle_body env others first_response second_response first_fault second_fault
                (w\<lparr>is_task_running := True\<rparr>))"]
  by (simp add: combined_scheduled_task_def cycle_begin_def)

text \<open>
  Claim C6: when the fetch of a feed gives the empty list, which is also what every failed
  fetch gives, the feed is skipped for the cycle: its part of the cycle does nothing but
  wait for the fetch, so no diff is computed and no task is created, and the snapshot file
  of the feed is the same after the whole cycle as before; when both fetches are empty
  the cycle leaves all files as they were and creates no task at all.
\<close>

theorem empty_fetch_skips_feed:
  "(fetch_json_from_url response = Inr [] \<longrightarrow>
      check_repo env others response fault previous_data_file is_second_repo w
        = (None, suspend others w)
      \<and> files (suspend others w) = files w
      \<and> trace (suspend others w) = trace w @ [Suspended])
   \<and> (fetch_json_from_url first_response = Inr [] \<longrightarrow>
        files (snd (combined_scheduled_task env others first_response second_response
                      first_fault second_fault w))
          PREVIOUS_DATA_FILE = files w PREVIOUS_DATA_FILE)
   \<and> (fetch_json_from_url second_response = Inr [] \<longrightarrow>
        files (snd (combined_scheduled_task env others first_response second_response
                      first_fault second_fault w))
          PREVIOUS_DATA_FILE_2 = files w PREVIOUS_DATA_FILE_2)
   \<and> (fetch_json_from_url first_response = Inr [] \<and>
       fetch_json_from_url second_response = Inr [] \<and> \<not> is_task_running w \<longrightarrow>
        files (snd (combined_scheduled_task env others first_response second_response
                      first_fault second_fault w))
          = files w \<and>
        trace (snd (combined_scheduled_task env others first_response second_response
                      first_fault second_fault w))
          = trace w @ [Suspended, Suspended])"
proof (intro conjI impI)
  assume "fetch_json_from_url response = Inr []"
  then show "check_repo env others response fault previous_data_file is_second_repo w
        = (None, suspend others w)"
    by (rule check_repo_empty)
  show "files (suspend others w) = files w" by simp
  show "trace (suspend others w) = trace w @ [Suspended]" by simp
next
  assume "fetch_json_from_url first_response = Inr []"
  from cycle_body_first_empty [OF this]
  show "files (snd (combined_scheduled_task env others first_response second_response
                      first_fault second_fault w))
          PREVIOUS_DATA_FILE = files w PREVIOUS_DATA_FILE"
    by (simp add: combined_files)
next
  assume "fetch_json_from_url second_response = Inr []"
  from cycle_body_second_empty [OF this]
  show "files (snd (combined_scheduled_task env others first_response second_response
                      first_fault second_fault w))
          PREVIOUS_DATA_FILE_2 = files w PREVIOUS_DATA_FILE_2"
    by (simp add: combined_files)
next
  assume a: "fetch_json_from_url first_response = Inr [] \<and>
       fetch_json_from_url second_response = Inr [] \<and> \<not> is_task_running w"
  then have "combined_scheduled_task env others first_response second_response
                first_fault second_fault w
      = cycle_end (None, suspend others (suspend others (w\<lparr>is_task_running := True\<rparr>)))"
    by (simp add: combined_scheduled_task_def cycle_begin_def cycle_body_def check_repo_empty)
  then show "files (snd (combined_scheduled_task env others first_response second_response
                      first_fault second_fault w))
          = files w"
    "trace (snd (combined_scheduled_task env others first_response second_response
                      first_fault second_fault w))
          = trace w @ [Suspended, Suspended]"
    by simp_all
qed

theorem empty_fetch_skips_feed_witness:
  "fetch_json_from_url Bad_status = Inr []
   \<and> fetch_json_from_url Connection_error = Inr []
   \<and> fetch_json_from_url (Response_200 []) = Inr []
   \<and> \<not> is_task_running idle_world
   \<and> check_repo example_env (\<lambda>w. w) Bad_status No_fault PREVIOUS_DATA_FILE False idle_world
        = (None, suspend (\<lambda>w. w) idle_world)
   \<and> files (suspend (\<lambda>w. w) idle_world) = files idle_world
   \<and> trace (suspend (\<lambda>w. w) idle_world) = trace idle_world @ [Suspended]
   \<and> files (snd (combined_scheduled_task example_env (\<lambda>w. w) Connection_error (Response_200 [])
                    No_fault No_fault idle_world)) PREVIOUS_DATA_FILE
        = files idle_world PREVIOUS_DATA_FILE
   \<and> files (snd (combined_scheduled_task example_env (\<lambda>w. w) Connection_error (Response_200 [])
                    No_fault No_fault idle_world)) PREVIOUS_DATA_FILE_2
        = files idle_world PREVIOUS_DATA_FILE_2
   \<and> files (snd (combined_scheduled_task example_env (\<lambda>w. w) Connection_error (Response_200 [])
                    No_fault No_fault idle_world))
        = files idle_world
   \<and> trace (snd (combined_scheduled_task example_env (\<lambda>w. w) Connection_error (Response_200 [])
                    No_fault No_fault idle_world))
        = trace idle_world @ [Suspended, Suspended]"
proof -
  have h: "fetch_json_from_url Bad_status = Inr []" "fetch_json_from_url Connection_error = Inr []"
    "fetch_json_from_url (Response_200 []) = Inr []" "\<not> is_task_running idle_world"
    by (simp_all add: idle_world_def)
  from empty_fetch_skips_feed [where response = Bad_status and first_response = Connection_error
      and second_response = "Response_200 []" and w = idle_world and env = example_env
      and others = "\<lambda>w. w" and fault = No_fault and first_fault = No_fault and second_fault = No_fault
      and previous_data_file = PREVIOUS_DATA_FILE and is_second_repo = False] h
  show ?thesis by simp
qed

section \<open>A snapshot write that fails\<close>

lemma example_run_write_fails:
  "process_repo_updates example_env (\<lambda>w. w) Write_fails example_new_data [[(''id'', JInt 1)]]
     PREVIOUS_DATA_FILE False idle_world
   = (None,
      \<lparr>failed_channels = {}, channel_failure_counts = Map.empty, is_task_running = False,
       files = [PREVIOUS_DATA_FILE \<mapsto> Not_json],
       guild_configs = [(1, Some 11, None)],
       trace = [Suspended, Task_created (Send_messages_to_all example_deactivation_message),
                File_overwritten PREVIOUS_DATA_FILE]\<rparr>)"
  by (simp add: process_repo_updates_def idle_world_def example_new_data_def suspend_def
        has_id_def get_none_def get_default_def no_transitions_def
        format_deactivation_message_def get_term_emoji_and_string_def
        example_deactivation_message_def write_previous_data_def)

lemma save_json_data_restores:
  assumes "fs file_path = Some c" and "fault \<noteq> No_fault"
  shows "save_json_data False fault data file_path fs
           = (False, fs(file_path @ ''.backup'' := None))"
  using assms
  by (cases fault) (auto simp: save_json_data_def restore_backup_def Let_def)

lemma save_json_data_keeps_baseline:
  assumes "fs file_path = Some c" and "fault \<noteq> No_fault"
  shows "snd (save_json_data False fault data file_path fs) file_path = Some c"
  using assms by (simp add: save_json_data_restores)

text \<open>
  Claim C2 asks that every snapshot write renames the existing file aside first and
  restores it when the write fails. \<^verbatim>\<open>save_json_data\<close> does; the write of
  \<^verbatim>\<open>process_repo_updates\<close> does not. Here the snapshot of the first repository holds
  one listing and the write fails while the data is dumped: the bot leaves a file that is
  no JSON document, there is no backup, and the next cycle loads the empty list as its
  previous data; \<^verbatim>\<open>save_json_data\<close> in the same situation leaves the old snapshot in
  place.
\<close>

theorem failed_write_leaves_no_baseline:
  "files idle_world PREVIOUS_DATA_FILE = Some (Json_doc [[(''id'', JInt 1)]])
   \<and> files (snd (process_repo_updates example_env (\<lambda>w. w) Write_fails example_new_data
                    [[(''id'', JInt 1)]] PREVIOUS_DATA_FILE False idle_world))
        PREVIOUS_DATA_FILE = Some Not_json
   \<and> files (snd (process_repo_updates example_env (\<lambda>w. w) Write_fails example_new_data
                    [[(''id'', JInt 1)]] PREVIOUS_DATA_FILE False idle_world))
        (PREVIOUS_DATA_FILE @ ''.backup'') = None
   \<and> load_previous_data
        (snd (process_repo_updates example_env (\<lambda>w. w) Write_fails example_new_data
                [[(''id'', JInt 1)]] PREVIOUS_DATA_FILE False idle_world))
        PREVIOUS_DATA_FILE = []
   \<and> snd (save_json_data False Write_fails example_new_data PREVIOUS_DATA_FILE
             (files idle_world)) PREVIOUS_DATA_FILE
        = Some (Json_doc [[(''id'', JInt 1)]])"
proof -
  have "files idle_world PREVIOUS_DATA_FILE = Some (Json_doc [[(''id'', JInt 1)]])"
    by (simp add: idle_world_def)
  moreover from this
  have "snd (save_json_data False Write_fails example_new_data PREVIOUS_DATA_FILE
             (files idle_world)) PREVIOUS_DATA_FILE
        = Some (Json_doc [[(''id'', JInt 1)]])"
    by (intro save_json_data_keeps_baseline) simp_all
  ultimately show ?thesis
    by (simp add: example_run_write_fails load_previous_data_def)
qed

section \<open>The guard at work\<close>

theorem single_cycle_guard_witness:
  "\<not> is_task_running idle_world
   \<and> snd (run_sched [Tick, Task_starts, Tick, Task_starts, Body_finishes (Some CancelledError),
                     Tick, Task_starts] (idle_world, 0)) \<le> 1
   \<and> is_task_running (idle_world\<lparr>is_task_running := True\<rparr>)
   \<and> try_start_scheduled_task (idle_world\<lparr>is_task_running := True\<rparr>)
        = idle_world\<lparr>is_task_running := True\<rparr>
   \<and> cycle_begin (idle_world\<lparr>is_task_running := True\<rparr>) = None
   \<and> combined_scheduled_task example_env (\<lambda>w. w) Bad_status Cancelled No_fault No_fault
        (idle_world\<lparr>is_task_running := True\<rparr>)
        = (None, idle_world\<lparr>is_task_running := True\<rparr>)
   \<and> \<not> is_task_running (snd (cycle_end (Some CancelledError, idle_world\<lparr>is_task_running := True\<rparr>)))
   \<and> \<not> is_task_running
         (snd (combined_scheduled_task example_env (\<lambda>w. w) Bad_status Cancelled No_fault No_fault
                 idle_world))
   \<and> cycle_begin
         (snd (combined_scheduled_task example_env (\<lambda>w. w) Bad_status Cancelled No_fault No_fault
                 idle_world)) \<noteq> None"
proof -
  have h: "\<not> is_task_running idle_world" "is_task_running (idle_world\<lparr>is_task_running := True\<rparr>)"
    by (simp_all add: idle_world_def)
  from single_cycle_guard [where w = idle_world and env = example_env and others = "\<lambda>w. w"
      and first_response = Bad_status and second_response = Cancelled and first_fault = No_fault
      and second_fault = No_fault and x = "Some CancelledError"
      and events = "[Tick, Task_starts, Tick, Task_starts, Body_finishes (Some CancelledError),
                     Tick, Task_starts]"]
    single_cycle_guard [where w = "idle_world\<lparr>is_task_running := True\<rparr>" and env = example_env
      and others = "\<lambda>w. w" and first_response = Bad_status and second_response = Cancelled
      and first_fault = No_fault and second_fault = No_fault and x = "Some CancelledError"
      and events = "[]"]
    h
  show ?thesis by simp
qed

lemma second_start_is_dropped:
  "snd (run_sched [Tick, Task_starts, Tick, Task_starts] (idle_world, 0)) = 1
   \<and> snd (run_sched [Tick, Task_starts, Tick, Task_starts, Body_finishes (Some CancelledError)]
            (idle_world, 0)) = 0
   \<and> snd (run_sched [Tick, Task_starts, Tick, Task_starts, Body_finishes (Some CancelledError),
                     Tick, Task_starts] (idle_world, 0)) = 1"
  by (simp add: run_sched_def idle_world_def try_start_scheduled_task_def cycle_begin_def)

lemma cancelled_cycle_example:
  "combined_scheduled_task example_env (\<lambda>w. w) Bad_status Cancelled No_fault No_fault idle_world
     = (Some CancelledError, idle_world\<lparr>trace := [Suspended, Suspended]\<rparr>)"
  by (simp add: combined_scheduled_task_def cycle_begin_def cycle_body_def check_repo_def
        suspend_def idle_world_def)


end
